theory Spec2Isabelle
  imports Main
begin

unbundle bit_operations_syntax

section \<open>The 2.13 inch e-Paper driver (micropython_epaper_display.py)\<close>

subsection \<open>Geometry\<close>

definition DISPLAY_WIDTH :: int where
  "DISPLAY_WIDTH = 122"

definition DISPLAY_HEIGHT :: int where
  "DISPLAY_HEIGHT = 250"

text \<open>The attributes \<open>self.width\<close> and \<open>self.height\<close>: the constructor assigns them the
  two constants and no method assigns them again.\<close>

definition width :: int where
  "width = DISPLAY_WIDTH"

definition height :: int where
  "height = DISPLAY_HEIGHT"

subsection \<open>Hardware state, exceptions, outcomes\<close>

text \<open>One completed \<open>spi.write\<close>: the levels of the data/command line and of the
  chip-select line while the bytes went out, and the bytes.\<close>

datatype xfer = Xfer (xfer_dc: nat) (xfer_cs: nat) (xfer_bytes: "int list")

text \<open>The object's pins and bus, with the environment written out: \<open>spi_fault k\<close> says
  whether the \<open>k\<close>-th call of \<open>spi.write\<close> raises, \<open>busy_in k\<close> is the level the \<open>k\<close>-th
  read of the busy pin returns. \<open>clock_us\<close> adds up the time slept, \<open>console\<close> collects what
  \<open>print\<close> wrote. \<open>reset_marks\<close> notes, for each time the reset line was driven low, how many
  SPI writes had been completed by then.\<close>

record hw =
  rst :: nat
  dc :: nat
  cs :: nat
  bus :: "xfer list"
  spi_calls :: nat
  spi_fault :: "nat \<Rightarrow> bool"
  busy_in :: "nat \<Rightarrow> nat"
  polls :: nat
  clock_us :: nat
  console :: "string list"
  reset_marks :: "nat list"

text \<open>\<open>ValueError\<close> is what \<open>bytes(...)\<close> raises on an element outside \<open>range(256)\<close>;
  \<open>TransportError\<close> stands for an exception raised by \<open>spi.write\<close> itself.\<close>

datatype error = ValueError | TransportError

text \<open>A call returns (\<open>Done\<close>), raises with the hardware as it was left (\<open>Raised\<close>), or
  never returns (\<open>Diverges\<close>).\<close>

datatype outcome = Done hw | Raised error hw | Diverges

text \<open>A method body: the statements in order, stopping at the first that does not return.\<close>

fun run :: "(hw \<Rightarrow> outcome) list \<Rightarrow> hw \<Rightarrow> outcome" where
  "run [] s = Done s"
| "run (f # fs) s =
     (case f s of
        Done s' \<Rightarrow> run fs s'
      | Raised e s' \<Rightarrow> Raised e s'
      | Diverges \<Rightarrow> Diverges)"

text \<open>The state right after \<open>EPaperDisplay()\<close>, output lines low and nothing sent yet, in a
  given environment.\<close>

definition new_display :: "(nat \<Rightarrow> bool) \<Rightarrow> (nat \<Rightarrow> nat) \<Rightarrow> hw" where
  "new_display fault busy =
     \<lparr>rst = 0, dc = 0, cs = 0, bus = [], spi_calls = 0, spi_fault = fault,
      busy_in = busy, polls = 0, clock_us = 0, console = [], reset_marks = []\<rparr>"

subsection \<open>machine and time primitives\<close>

definition rst_value :: "nat \<Rightarrow> hw \<Rightarrow> outcome" where
  "rst_value v s =
     Done (s\<lparr>rst := v,
             reset_marks :=
               (if v = 0 then reset_marks s @ [length (bus s)] else reset_marks s)\<rparr>)"

definition dc_value :: "nat \<Rightarrow> hw \<Rightarrow> outcome" where
  "dc_value v s = Done (s\<lparr>dc := v\<rparr>)"

definition cs_value :: "nat \<Rightarrow> hw \<Rightarrow> outcome" where
  "cs_value v s = Done (s\<lparr>cs := v\<rparr>)"

definition sleep_us :: "nat \<Rightarrow> hw \<Rightarrow> outcome" where
  "sleep_us n s = Done (s\<lparr>clock_us := clock_us s + n\<rparr>)"

definition sleep_ms :: "nat \<Rightarrow> hw \<Rightarrow> outcome" where
  "sleep_ms n s = Done (s\<lparr>clock_us := clock_us s + 1000 * n\<rparr>)"

definition print_line :: "string \<Rightarrow> hw \<Rightarrow> outcome" where
  "print_line msg s = Done (s\<lparr>console := console s @ [msg]\<rparr>)"

text \<open>\<open>bytes(xs)\<close> of a sequence of integers: every element must lie in \<open>range(256)\<close>.\<close>

definition is_byte :: "int \<Rightarrow> bool" where
  "is_byte x \<longleftrightarrow> 0 \<le> x \<and> x < 256"

definition bytes_of :: "int list \<Rightarrow> error + int list" where
  "bytes_of xs = (if list_all is_byte xs then Inr xs else Inl ValueError)"

text \<open>\<open>self.spi.write(bytes(xs))\<close>: the argument is built first, then the write is made.\<close>

definition spi_write :: "int list \<Rightarrow> hw \<Rightarrow> outcome" where
  "spi_write xs s =
     (case bytes_of xs of
        Inl e \<Rightarrow> Raised e s
      | Inr bs \<Rightarrow>
          if spi_fault s (spi_calls s)
          then Raised TransportError (s\<lparr>spi_calls := spi_calls s + 1\<rparr>)
          else Done (s\<lparr>bus := bus s @ [Xfer (dc s) (cs s) bs],
                       spi_calls := spi_calls s + 1\<rparr>))"

subsection \<open>Command channel\<close>

definition send_command :: "int \<Rightarrow> hw \<Rightarrow> outcome" where
  "send_command command = run [dc_value 0, cs_value 0, spi_write [command], cs_value 1]"

definition send_data :: "int \<Rightarrow> hw \<Rightarrow> outcome" where
  "send_data data = run [dc_value 1, cs_value 0, spi_write [data], cs_value 1]"

definition send_bytes :: "int list \<Rightarrow> hw \<Rightarrow> outcome" where
  "send_bytes data = run [dc_value 1, cs_value 0, spi_write data, cs_value 1]"

subsection \<open>Busy wait\<close>

text \<open>The \<open>while\<close> loop of \<open>wait_until_idle\<close>: read the busy pin; on 1 sleep 10 ms and read
  again. \<open>None\<close> is the loop that never ends.\<close>

partial_function (option) busy_loop :: "hw \<Rightarrow> hw option" where
  "busy_loop s =
     (if busy_in s (polls s) = 1
      then busy_loop (s\<lparr>polls := polls s + 1, clock_us := clock_us s + 1000 * 10\<rparr>)
      else Some (s\<lparr>polls := polls s + 1\<rparr>))"

declare busy_loop.simps [code]

definition while_busy :: "hw \<Rightarrow> outcome" where
  "while_busy s = (case busy_loop s of None \<Rightarrow> Diverges | Some s' \<Rightarrow> Done s')"

definition wait_until_idle :: "hw \<Rightarrow> outcome" where
  "wait_until_idle =
     run [print_line ''e-Paper: waiting for display to be ready...'',
          while_busy,
          print_line ''e-Paper: display ready'']"

subsection \<open>Panel operations\<close>

definition power_off :: "hw \<Rightarrow> outcome" where
  "power_off =
     run [rst_value 0, dc_value 0, cs_value 0,
          print_line ''close 5V, Module enters 0 power consumption ...'']"

definition hw_reset :: "hw \<Rightarrow> outcome" where
  "hw_reset =
     run [rst_value 1, sleep_us 200, rst_value 0, sleep_us 200, rst_value 1, sleep_us 200,
          wait_until_idle]"

definition sw_reset :: "hw \<Rightarrow> outcome" where
  "sw_reset = run [send_command 0x12, sleep_ms 10, wait_until_idle]"

definition set_display_size_and_driver_output :: "hw \<Rightarrow> outcome" where
  "set_display_size_and_driver_output =
     run [send_command 0x01, send_data 0xf9, send_data 0x00, send_data 0x00]"

text \<open>An optional argument is \<open>None\<close> when the caller leaves it out.\<close>

definition set_ram_data_entry_mode :: "int option \<Rightarrow> hw \<Rightarrow> outcome" where
  "set_ram_data_entry_mode mode =
     run [send_command 0x11, send_data (case mode of None \<Rightarrow> 0x03 | Some m \<Rightarrow> m)]"

definition display_update :: "hw \<Rightarrow> outcome" where
  "display_update = run [send_command 0x22, send_data 0xF7]"

definition turn_on_display :: "hw \<Rightarrow> outcome" where
  "turn_on_display = run [display_update, send_command 0x20, wait_until_idle]"

definition set_window :: "int \<Rightarrow> int \<Rightarrow> int \<Rightarrow> int \<Rightarrow> hw \<Rightarrow> outcome" where
  "set_window x_start y_start x_end y_end =
     run [send_command 0x44,
          send_data ((drop_bit 3 x_start) AND 0xFF),
          send_data ((drop_bit 3 x_end) AND 0xFF),
          send_command 0x45,
          send_data (y_start AND 0xFF),
          send_data ((drop_bit 8 y_start) AND 0xFF),
          send_data (y_end AND 0xFF),
          send_data ((drop_bit 8 y_end) AND 0xFF)]"

definition set_cursor :: "int \<Rightarrow> int \<Rightarrow> hw \<Rightarrow> outcome" where
  "set_cursor x y =
     run [send_command 0x4E,
          send_data (x AND 0xFF),
          send_command 0x4F,
          send_data (y AND 0xFF),
          send_data ((drop_bit 8 y) AND 0xFF)]"

definition set_border :: "int option \<Rightarrow> hw \<Rightarrow> outcome" where
  "set_border v =
     run [send_command 0x3C, send_data (case v of None \<Rightarrow> 0xC0 | Some b \<Rightarrow> b)]"

definition init :: "hw \<Rightarrow> outcome" where
  "init =
     run [hw_reset,
          sw_reset,
          set_display_size_and_driver_output,
          set_ram_data_entry_mode None,
          set_window 0 0 (width - 1) (height - 1),
          set_border None,
          wait_until_idle]"

definition display :: "int list \<Rightarrow> hw \<Rightarrow> outcome" where
  "display img = run [set_cursor 0 0, send_command 0x24, send_bytes img, turn_on_display]"

text \<open>The buffer \<open>clear\<close> builds. \<open>int(self.width / 8)\<close> is the floor of the quotient, the
  width being positive.\<close>

definition clear_buffer :: "int \<Rightarrow> int list" where
  "clear_buffer color =
     (let linewidth = (if width mod 8 = 0 then width div 8 else width div 8 + 1)
      in replicate (nat (height * linewidth)) color)"

definition clear :: "int option \<Rightarrow> hw \<Rightarrow> outcome" where
  "clear color = display (clear_buffer (case color of None \<Rightarrow> 0xFF | Some c \<Rightarrow> c))"

definition deep_sleep :: "hw \<Rightarrow> outcome" where
  "deep_sleep = run [send_command 0x10, send_data 0x01]"

subsection \<open>Method calls\<close>

text \<open>A call of any one method of the class, so that a caller's sequence of calls is a
  list.\<close>

datatype call =
    PowerOff
  | HwReset
  | SwReset
  | SetDisplaySizeAndDriverOutput
  | SetRamDataEntryMode "int option"
  | SendCommand int
  | SendData int
  | SendBytes "int list"
  | WaitUntilIdle
  | DisplayUpdate
  | TurnOnDisplay
  | SetWindow int int int int
  | SetCursor int int
  | Init
  | Display "int list"
  | Clear "int option"
  | DeepSleep
  | SetBorder "int option"

fun exec :: "call \<Rightarrow> hw \<Rightarrow> outcome" where
  "exec PowerOff = power_off"
| "exec HwReset = hw_reset"
| "exec SwReset = sw_reset"
| "exec SetDisplaySizeAndDriverOutput = set_display_size_and_driver_output"
| "exec (SetRamDataEntryMode mode) = set_ram_data_entry_mode mode"
| "exec (SendCommand c) = send_command c"
| "exec (SendData d) = send_data d"
| "exec (SendBytes xs) = send_bytes xs"
| "exec WaitUntilIdle = wait_until_idle"
| "exec DisplayUpdate = display_update"
| "exec TurnOnDisplay = turn_on_display"
| "exec (SetWindow x_start y_start x_end y_end) = set_window x_start y_start x_end y_end"
| "exec (SetCursor x y) = set_cursor x y"
| "exec Init = init"
| "exec (Display img) = display img"
| "exec (Clear color) = clear color"
| "exec DeepSleep = deep_sleep"
| "exec (SetBorder v) = set_border v"

text \<open>The calls whose byte arguments \<open>bytes(...)\<close> accepts.\<close>

fun bytes_ok :: "call \<Rightarrow> bool" where
  "bytes_ok (SetRamDataEntryMode (Some m)) = is_byte m"
| "bytes_ok (SendCommand c) = is_byte c"
| "bytes_ok (SendData d) = is_byte d"
| "bytes_ok (SendBytes xs) = list_all is_byte xs"
| "bytes_ok (Display img) = list_all is_byte img"
| "bytes_ok (Clear (Some c)) = is_byte c"
| "bytes_ok (SetBorder (Some b)) = is_byte b"
| "bytes_ok _ = True"

subsection \<open>Observations and environments\<close>

fun returned :: "outcome \<Rightarrow> bool" where
  "returned (Done s) = True"
| "returned (Raised e s) = False"
| "returned Diverges = False"

text \<open>The hardware as the call left it, when it came back at all.\<close>

fun final_hw :: "outcome \<Rightarrow> hw option" where
  "final_hw (Done s) = Some s"
| "final_hw (Raised e s) = Some s"
| "final_hw Diverges = None"

text \<open>No \<open>spi.write\<close> ever raises.\<close>

definition transport_ok :: "hw \<Rightarrow> bool" where
  "transport_ok s \<longleftrightarrow> (\<forall>k. \<not> spi_fault s k)"

text \<open>Whenever polling starts, some later read of the busy pin is not 1.\<close>

definition busy_clears :: "hw \<Rightarrow> bool" where
  "busy_clears s \<longleftrightarrow> (\<forall>m. \<exists>n. busy_in s (m + n) \<noteq> 1)"

text \<open>\<open>completes f\<close>: in an environment where no write fails and the busy line always clears
  again, \<open>f\<close> returns, in such an environment. \<open>emits f L\<close>: whenever \<open>f\<close> returns, the SPI
  writes it made are exactly \<open>L\<close>, in this order.\<close>

definition completes :: "(hw \<Rightarrow> outcome) \<Rightarrow> bool" where
  "completes f \<longleftrightarrow>
     (\<forall>s. transport_ok s \<and> busy_clears s \<longrightarrow>
        (\<exists>s'. f s = Done s' \<and> transport_ok s' \<and> busy_clears s'))"

definition emits :: "(hw \<Rightarrow> outcome) \<Rightarrow> xfer list \<Rightarrow> bool" where
  "emits f L \<longleftrightarrow> (\<forall>s s'. f s = Done s' \<longrightarrow> bus s' = bus s @ L)"

text \<open>\<open>keeps_reset f\<close>: whenever \<open>f\<close> returns, it has left the reset line as it was and has not
  driven it low in between.\<close>

definition keeps_reset :: "(hw \<Rightarrow> outcome) \<Rightarrow> bool" where
  "keeps_reset f \<longleftrightarrow>
     (\<forall>s s'. f s = Done s' \<longrightarrow> rst s' = rst s \<and> reset_marks s' = reset_marks s)"

text \<open>The driver object stores no power state. \<open>panel_state\<close> is the state of the panel in
  the terms of section 4.4 of the specification (Unknown, Reset, Ready, Sleep), read off what
  the panel has been made to see; it follows the specification and the docstrings of
  \<open>hw_reset\<close>, \<open>init\<close> and \<open>deep_sleep\<close>, not any variable of the driver. The panel is
  \<open>Unknown\<close> until the reset line has been driven low and is high again. From then on only
  the SPI writes since the last time the reset line was driven low count: the panel is in
  \<open>Sleep\<close> once the deep-sleep command 0x10 is among them; else \<open>Ready\<close> once the
  configuration that \<open>init\<close> sends (driver output control, data entry mode, full window,
  border) is among them; else \<open>Reset\<close>.\<close>

datatype PowerState = Unknown | Reset | Ready | Sleep

definition configure_frames :: "xfer list" where
  "configure_frames =
     [Xfer 0 0 [0x01], Xfer 1 0 [0xF9], Xfer 1 0 [0x00], Xfer 1 0 [0x00],
      Xfer 0 0 [0x11], Xfer 1 0 [0x03],
      Xfer 0 0 [0x44], Xfer 1 0 [0x00], Xfer 1 0 [0x0F],
      Xfer 0 0 [0x45], Xfer 1 0 [0x00], Xfer 1 0 [0x00], Xfer 1 0 [0xF9], Xfer 1 0 [0x00],
      Xfer 0 0 [0x3C], Xfer 1 0 [0xC0]]"

text \<open>\<open>has_run xs ys\<close>: the frames \<open>xs\<close> occur in \<open>ys\<close>, one after the other.\<close>

fun has_run :: "xfer list \<Rightarrow> xfer list \<Rightarrow> bool" where
  "has_run xs [] = (xs = [])"
| "has_run xs (y # ys) = (take (length xs) (y # ys) = xs \<or> has_run xs ys)"

definition panel_state :: "hw \<Rightarrow> PowerState" where
  "panel_state s =
     (if reset_marks s = [] \<or> rst s \<noteq> 1 then Unknown
      else
        let since_reset = drop (last (reset_marks s)) (bus s)
        in if Xfer 0 0 [0x10] \<in> set since_reset then Sleep
           else if has_run configure_frames since_reset then Ready
           else Reset)"

text \<open>Concrete environments: a transport that never fails, one whose first write fails; a
  busy line that is always idle, one that is busy for the first \<open>n\<close> reads, one stuck at 1.\<close>

definition no_fault :: "nat \<Rightarrow> bool" where
  "no_fault k = False"

definition first_write_fails :: "nat \<Rightarrow> bool" where
  "first_write_fails k = (k = 0)"

definition idle_line :: "nat \<Rightarrow> nat" where
  "idle_line k = 0"

definition busy_for :: "nat \<Rightarrow> nat \<Rightarrow> nat" where
  "busy_for n k = (if k < n then 1 else 0)"

definition stuck_busy :: "nat \<Rightarrow> nat" where
  "stuck_busy k = 1"

section \<open>Sequencing and the primitives\<close>

lemma run_Cons_Done:
  "run (f # fs) s = Done s' \<longleftrightarrow> (\<exists>t. f s = Done t \<and> run fs t = Done s')"
  by (cases "f s") auto

lemma run_Cons_Raised:
  "run (f # fs) s = Raised e s' \<longleftrightarrow>
     f s = Raised e s' \<or> (\<exists>t. f s = Done t \<and> run fs t = Raised e s')"
  by (cases "f s") auto

lemma run_Cons_Diverges:
  "run (f # fs) s = Diverges \<longleftrightarrow> f s = Diverges \<or> (\<exists>t. f s = Done t \<and> run fs t = Diverges)"
  by (cases "f s") auto

lemma spi_write_ok:
  "list_all is_byte xs \<Longrightarrow> \<not> spi_fault s (spi_calls s) \<Longrightarrow>
   spi_write xs s = Done (s\<lparr>bus := bus s @ [Xfer (dc s) (cs s) xs], spi_calls := spi_calls s + 1\<rparr>)"
  by (simp add: spi_write_def bytes_of_def)

lemma spi_write_fault:
  "list_all is_byte xs \<Longrightarrow> spi_fault s (spi_calls s) \<Longrightarrow>
   spi_write xs s = Raised TransportError (s\<lparr>spi_calls := spi_calls s + 1\<rparr>)"
  by (simp add: spi_write_def bytes_of_def)

lemma spi_write_bad:
  "\<not> list_all is_byte xs \<Longrightarrow> spi_write xs s = Raised ValueError s"
  by (simp add: spi_write_def bytes_of_def)

lemma send_bytes_ok:
  "list_all is_byte xs \<Longrightarrow> \<not> spi_fault s (spi_calls s) \<Longrightarrow>
   send_bytes xs s =
     Done (s\<lparr>dc := 1, cs := 1, bus := bus s @ [Xfer 1 0 xs], spi_calls := spi_calls s + 1\<rparr>)"
  by (simp add: send_bytes_def spi_write_ok dc_value_def cs_value_def)

lemma send_bytes_fault:
  "list_all is_byte xs \<Longrightarrow> spi_fault s (spi_calls s) \<Longrightarrow>
   send_bytes xs s = Raised TransportError (s\<lparr>dc := 1, cs := 0, spi_calls := spi_calls s + 1\<rparr>)"
  by (simp add: send_bytes_def spi_write_fault dc_value_def cs_value_def)

lemma send_bytes_bad:
  "\<not> list_all is_byte xs \<Longrightarrow> send_bytes xs s = Raised ValueError (s\<lparr>dc := 1, cs := 0\<rparr>)"
  by (simp add: send_bytes_def spi_write_bad dc_value_def cs_value_def)

lemma send_data_ok:
  "is_byte d \<Longrightarrow> \<not> spi_fault s (spi_calls s) \<Longrightarrow>
   send_data d s =
     Done (s\<lparr>dc := 1, cs := 1, bus := bus s @ [Xfer 1 0 [d]], spi_calls := spi_calls s + 1\<rparr>)"
  by (simp add: send_data_def spi_write_ok dc_value_def cs_value_def)

lemma send_data_fault:
  "is_byte d \<Longrightarrow> spi_fault s (spi_calls s) \<Longrightarrow>
   send_data d s = Raised TransportError (s\<lparr>dc := 1, cs := 0, spi_calls := spi_calls s + 1\<rparr>)"
  by (simp add: send_data_def spi_write_fault dc_value_def cs_value_def)

lemma send_data_bad:
  "\<not> is_byte d \<Longrightarrow> send_data d s = Raised ValueError (s\<lparr>dc := 1, cs := 0\<rparr>)"
  by (simp add: send_data_def spi_write_bad dc_value_def cs_value_def)

lemma send_command_ok:
  "is_byte c \<Longrightarrow> \<not> spi_fault s (spi_calls s) \<Longrightarrow>
   send_command c s =
     Done (s\<lparr>dc := 0, cs := 1, bus := bus s @ [Xfer 0 0 [c]], spi_calls := spi_calls s + 1\<rparr>)"
  by (simp add: send_command_def spi_write_ok dc_value_def cs_value_def)

lemma send_command_fault:
  "is_byte c \<Longrightarrow> spi_fault s (spi_calls s) \<Longrightarrow>
   send_command c s = Raised TransportError (s\<lparr>dc := 0, cs := 0, spi_calls := spi_calls s + 1\<rparr>)"
  by (simp add: send_command_def spi_write_fault dc_value_def cs_value_def)

lemma send_command_bad:
  "\<not> is_byte c \<Longrightarrow> send_command c s = Raised ValueError (s\<lparr>dc := 0, cs := 0\<rparr>)"
  by (simp add: send_command_def spi_write_bad dc_value_def cs_value_def)

section \<open>Command channel: chip select\<close>

text \<open>
  C3 (as the code has it). Each of \<open>send_command\<close>, \<open>send_data\<close> and \<open>send_bytes\<close> drives
  chip select back to 1 on its normal return only. Whenever one of them raises, chip select is
  still at 0 when the exception leaves the method; in particular, when the transport write
  raises, the error propagates at once with the data/command line set, chip select at 0 and
  nothing sent. None of the three can loop.
\<close>

theorem bus_select_released_on_return_only:
  "(\<forall>s'. send_command c s = Done s' \<longrightarrow> cs s' = 1) \<and>
   (\<forall>e s'. send_command c s = Raised e s' \<longrightarrow> cs s' = 0) \<and>
   send_command c s \<noteq> Diverges \<and>
   (\<forall>s'. send_data d s = Done s' \<longrightarrow> cs s' = 1) \<and>
   (\<forall>e s'. send_data d s = Raised e s' \<longrightarrow> cs s' = 0) \<and>
   send_data d s \<noteq> Diverges \<and>
   (\<forall>s'. send_bytes xs s = Done s' \<longrightarrow> cs s' = 1) \<and>
   (\<forall>e s'. send_bytes xs s = Raised e s' \<longrightarrow> cs s' = 0) \<and>
   send_bytes xs s \<noteq> Diverges \<and>
   (is_byte c \<and> spi_fault s (spi_calls s) \<longrightarrow>
      send_command c s =
        Raised TransportError (s\<lparr>dc := 0, cs := 0, spi_calls := spi_calls s + 1\<rparr>)) \<and>
   (is_byte d \<and> spi_fault s (spi_calls s) \<longrightarrow>
      send_data d s =
        Raised TransportError (s\<lparr>dc := 1, cs := 0, spi_calls := spi_calls s + 1\<rparr>)) \<and>
   (list_all is_byte xs \<and> spi_fault s (spi_calls s) \<longrightarrow>
      send_bytes xs s =
        Raised TransportError (s\<lparr>dc := 1, cs := 0, spi_calls := spi_calls s + 1\<rparr>))"
proof -
  have c: "(\<forall>s'. send_command c s = Done s' \<longrightarrow> cs s' = 1) \<and>
      (\<forall>e s'. send_command c s = Raised e s' \<longrightarrow> cs s' = 0) \<and> send_command c s \<noteq> Diverges"
    by (cases "is_byte c"; cases "spi_fault s (spi_calls s)")
      (auto simp: send_command_ok send_command_fault send_command_bad)
  have d: "(\<forall>s'. send_data d s = Done s' \<longrightarrow> cs s' = 1) \<and>
      (\<forall>e s'. send_data d s = Raised e s' \<longrightarrow> cs s' = 0) \<and> send_data d s \<noteq> Diverges"
    by (cases "is_byte d"; cases "spi_fault s (spi_calls s)")
      (auto simp: send_data_ok send_data_fault send_data_bad)
  have b: "(\<forall>s'. send_bytes xs s = Done s' \<longrightarrow> cs s' = 1) \<and>
      (\<forall>e s'. send_bytes xs s = Raised e s' \<longrightarrow> cs s' = 0) \<and> send_bytes xs s \<noteq> Diverges"
    by (cases "list_all is_byte xs"; cases "spi_fault s (spi_calls s)")
      (auto simp: send_bytes_ok send_bytes_fault send_bytes_bad)
  from c d b show ?thesis
    by (simp add: send_command_fault send_data_fault send_bytes_fault)
qed

theorem bus_select_released_on_return_only_witness:
  "send_data 0xF7 (new_display first_write_fails idle_line) =
     Raised TransportError
       ((new_display first_write_fails idle_line)\<lparr>dc := 1, cs := 0, spi_calls := 1\<rparr>) \<and>
   (\<exists>s'. send_data 0xF7 (new_display no_fault idle_line) = Done s' \<and> cs s' = 1)"
proof -
  have "is_byte 0xF7" by (simp add: is_byte_def)
  moreover have "spi_fault (new_display first_write_fails idle_line)
      (spi_calls (new_display first_write_fails idle_line))"
    by (simp add: new_display_def first_write_fails_def)
  ultimately have "send_data 0xF7 (new_display first_write_fails idle_line) =
     Raised TransportError
       ((new_display first_write_fails idle_line)\<lparr>dc := 1, cs := 0, 
          spi_calls := spi_calls (new_display first_write_fails idle_line) + 1\<rparr>)"
    using bus_select_released_on_return_only
      [of 0 "new_display first_write_fails idle_line" "0xF7" "[]"] by blast
  moreover have "\<exists>s'. send_data 0xF7 (new_display no_fault idle_line) = Done s' \<and> cs s' = 1"
    using bus_select_released_on_return_only [of 0 "new_display no_fault idle_line" "0xF7" "[]"]
    by (simp add: send_data_ok is_byte_def new_display_def no_fault_def)
  ultimately show ?thesis by (simp add: new_display_def)
qed

text \<open>
  C3 as stated fails: on a transport whose first write raises, \<open>send_command(0x12)\<close> gives the
  error back with chip select at 0.
\<close>

theorem send_command_transport_failure_counterexample:
  "send_command 0x12 (new_display first_write_fails idle_line) =
     Raised TransportError ((new_display first_write_fails idle_line)\<lparr>spi_calls := 1\<rparr>) \<and>
   cs ((new_display first_write_fails idle_line)\<lparr>spi_calls := 1\<rparr>) = 0"
  by (simp add: send_command_fault is_byte_def new_display_def first_write_fails_def)

section \<open>The busy wait\<close>

lemma busy_loop_first_idle:
  "busy_in s (polls s + n) \<noteq> 1 \<Longrightarrow> (\<forall>m<n. busy_in s (polls s + m) = 1) \<Longrightarrow>
   busy_loop s = Some (s\<lparr>polls := polls s + n + 1, clock_us := clock_us s + 10000 * n\<rparr>)"
proof (induction n arbitrary: s)
  case 0
  then show ?case by (subst busy_loop.simps) simp
next
  case (Suc n)
  let ?t = "s\<lparr>polls := polls s + 1, clock_us := clock_us s + 1000 * 10\<rparr>"
  from Suc.prems(2) have now: "busy_in s (polls s) = 1" by (metis add.right_neutral zero_less_Suc)
  have a: "busy_in ?t (polls ?t + n) \<noteq> 1" using Suc.prems(1) by simp
  have b: "\<forall>m<n. busy_in ?t (polls ?t + m) = 1"
  proof (intro allI impI)
    fix m assume "m < n"
    then have "Suc m < Suc n" by simp
    with Suc.prems(2) have "busy_in s (polls s + Suc m) = 1" by blast
    then show "busy_in ?t (polls ?t + m) = 1" by simp
  qed
  have "busy_loop s = busy_loop ?t" using now by (subst busy_loop.simps) simp
  also have "\<dots> = Some (?t\<lparr>polls := polls ?t + n + 1, clock_us := clock_us ?t + 10000 * n\<rparr>)"
    by (rule Suc.IH [OF a b])
  finally show ?case by simp
qed

lemma busy_loop_Some_idle:
  assumes "busy_loop s = Some s'"
  shows "\<exists>n. busy_in s (polls s + n) \<noteq> 1"
proof (rule busy_loop.raw_induct
    [where P = "\<lambda>s s'. \<exists>n. busy_in s (polls s + n) \<noteq> 1", rotated 1, OF assms])
  fix f and t t' :: hw
  assume IH: "\<And>x y. f x = Some y \<Longrightarrow> \<exists>n. busy_in x (polls x + n) \<noteq> 1"
    and step: "(if busy_in t (polls t) = 1
                then f (t\<lparr>polls := polls t + 1, clock_us := clock_us t + 1000 * 10\<rparr>)
                else Some (t\<lparr>polls := polls t + 1\<rparr>)) = Some t'"
  show "\<exists>n. busy_in t (polls t + n) \<noteq> 1"
  proof (cases "busy_in t (polls t) = 1")
    case True
    with step have "f (t\<lparr>polls := polls t + 1, clock_us := clock_us t + 1000 * 10\<rparr>) = Some t'"
      by simp
    from IH [OF this] obtain n where "busy_in t (Suc (polls t + n)) \<noteq> 1" by auto
    then have "busy_in t (polls t + Suc n) \<noteq> 1" by simp
    then show ?thesis by blast
  next
    case False
    then have "busy_in t (polls t + 0) \<noteq> 1" by simp
    then show ?thesis by blast
  qed
qed

lemma busy_loop_None_iff: "busy_loop s = None \<longleftrightarrow> (\<forall>n. busy_in s (polls s + n) = 1)"
proof
  assume "busy_loop s = None"
  show "\<forall>n. busy_in s (polls s + n) = 1"
  proof (rule ccontr)
    assume "\<not> (\<forall>n. busy_in s (polls s + n) = 1)"
    then have ex: "\<exists>n. busy_in s (polls s + n) \<noteq> 1" by simp
    define k where "k = (LEAST n. busy_in s (polls s + n) \<noteq> 1)"
    have "busy_in s (polls s + k) \<noteq> 1" unfolding k_def using ex by (rule LeastI_ex)
    moreover have "\<forall>m<k. busy_in s (polls s + m) = 1"
      unfolding k_def using not_less_Least by blast
    ultimately have "busy_loop s \<noteq> None" using busy_loop_first_idle by simp
    with \<open>busy_loop s = None\<close> show False by simp
  qed
next
  assume "\<forall>n. busy_in s (polls s + n) = 1"
  then show "busy_loop s = None" using busy_loop_Some_idle by fastforce
qed

lemma wait_until_idle_first_idle:
  assumes "busy_in s (polls s + n) \<noteq> 1" and "\<forall>m<n. busy_in s (polls s + m) = 1"
  shows "wait_until_idle s =
     Done (s\<lparr>polls := polls s + n + 1, clock_us := clock_us s + 10000 * n,
             console := console s @ [''e-Paper: waiting for display to be ready...'',
                                     ''e-Paper: display ready'']\<rparr>)"
proof -
  let ?t = "s\<lparr>console := console s @ [''e-Paper: waiting for display to be ready...'']\<rparr>"
  have "busy_loop ?t =
      Some (?t\<lparr>polls := polls ?t + n + 1, clock_us := clock_us ?t + 10000 * n\<rparr>)"
    using assms by (intro busy_loop_first_idle) simp_all
  then show ?thesis
    by (simp add: wait_until_idle_def print_line_def while_busy_def)
qed

lemma wait_until_idle_Diverges_iff:
  "wait_until_idle s = Diverges \<longleftrightarrow> (\<forall>n. busy_in s (polls s + n) = 1)"
proof -
  let ?t = "s\<lparr>console := console s @ [''e-Paper: waiting for display to be ready...'']\<rparr>"
  have "wait_until_idle s = Diverges \<longleftrightarrow> busy_loop ?t = None"
    by (simp add: wait_until_idle_def print_line_def while_busy_def split: option.splits)
  also have "\<dots> \<longleftrightarrow> (\<forall>n. busy_in s (polls s + n) = 1)"
    by (simp add: busy_loop_None_iff)
  finally show ?thesis .
qed

lemma wait_until_idle_not_Raised: "wait_until_idle s \<noteq> Raised e t"
  by (simp add: wait_until_idle_def print_line_def while_busy_def split: option.splits)

text \<open>
  C9. \<open>wait_until_idle\<close> reads the busy pin, and after every read of 1 sleeps 10 ms and reads
  again. It returns if and only if some read from the current one on is not 1 (the pin reads
  0 or 1, so: is idle); it then returns at the first such read, after \<open>n + 1\<close> reads and
  \<open>n\<close> sleeps of 10 ms when that read is the \<open>n\<close>-th, for any \<open>n\<close> whatever: no bound on
  the number of polls. On a busy line that stays 1 it never returns. It never raises.
\<close>

theorem wait_until_idle_unbounded_polling:
  "(wait_until_idle s \<noteq> Diverges \<longleftrightarrow> (\<exists>n. busy_in s (polls s + n) \<noteq> 1)) \<and>
   (\<forall>n. busy_in s (polls s + n) \<noteq> 1 \<and> (\<forall>m<n. busy_in s (polls s + m) = 1) \<longrightarrow>
      wait_until_idle s =
        Done (s\<lparr>polls := polls s + n + 1, clock_us := clock_us s + 10000 * n,
                console := console s @ [''e-Paper: waiting for display to be ready...'',
                                        ''e-Paper: display ready'']\<rparr>)) \<and>
   ((\<forall>n. busy_in s (polls s + n) = 1) \<longrightarrow> wait_until_idle s = Diverges) \<and>
   (\<forall>e t. wait_until_idle s \<noteq> Raised e t)"
  using wait_until_idle_first_idle [of s] wait_until_idle_Diverges_iff [of s]
    wait_until_idle_not_Raised [of s]
  by blast

theorem wait_until_idle_unbounded_polling_witness:
  "wait_until_idle (new_display no_fault (busy_for 3)) =
     Done ((new_display no_fault (busy_for 3))\<lparr>polls := 4, clock_us := 30000,
             console := [''e-Paper: waiting for display to be ready...'',
                         ''e-Paper: display ready'']\<rparr>) \<and>
   wait_until_idle (new_display no_fault stuck_busy) = Diverges"
proof -
  let ?s = "new_display no_fault (busy_for 3)"
  have a: "busy_in ?s (polls ?s + 3) \<noteq> 1"
    by (simp add: new_display_def busy_for_def)
  have b: "\<forall>m<3. busy_in ?s (polls ?s + m) = 1"
    by (simp add: new_display_def busy_for_def)
  have c: "\<forall>n. busy_in (new_display no_fault stuck_busy)
      (polls (new_display no_fault stuck_busy) + n) = 1"
    by (simp add: new_display_def stuck_busy_def)
  from a b have "wait_until_idle ?s =
        Done (?s\<lparr>polls := polls ?s + 3 + 1, clock_us := clock_us ?s + 10000 * 3,
                console := console ?s @ [''e-Paper: waiting for display to be ready...'',
                                        ''e-Paper: display ready'']\<rparr>)"
    using wait_until_idle_unbounded_polling [of ?s] by blast
  moreover from c have "wait_until_idle (new_display no_fault stuck_busy) = Diverges"
    using wait_until_idle_unbounded_polling [of "new_display no_fault stuck_busy"] by blast
  ultimately show ?thesis by (simp add: new_display_def)
qed

section \<open>Address window and cursor\<close>

lemma and_255_mod: "(x::int) AND 0xFF = x mod 256"
  using take_bit_eq_mask [of 8 x] take_bit_eq_mod [of 8 x] by (simp add: mask_eq_exp_minus_1)

lemma is_byte_and [simp]: "is_byte (x AND 0xFF)"
  by (simp add: is_byte_def and_255_mod)

lemma is_byte_numeral [simp]: "is_byte (numeral n) \<longleftrightarrow> (numeral n :: int) < 256"
  by (simp add: is_byte_def)

lemma is_byte_0 [simp]: "is_byte 0"
  by (simp add: is_byte_def)

lemma is_byte_1 [simp]: "is_byte 1"
  by (simp add: is_byte_def)

lemma shift3_byte: "drop_bit 3 (x::int) AND 0xFF = (x div 8) mod 256"
  by (simp add: and_255_mod drop_bit_eq_div)

lemma shift8_byte: "drop_bit 8 (y::int) AND 0xFF = (y mod 65536) div 256"
proof -
  have "y mod (256 * 256) = 256 * (y div 256 mod 256) + y mod 256"
    by (rule zmod_zmult2_eq) simp
  then have "y mod 65536 = (y div 256 mod 256) * 256 + y mod 256" by simp
  then have "(y mod 65536) div 256 = ((y div 256 mod 256) * 256 + y mod 256) div 256" by simp
  also have "\<dots> = y div 256 mod 256" by simp
  finally show ?thesis by (simp add: and_255_mod drop_bit_eq_div)
qed

lemma low_byte: "(y::int) AND 0xFF = (y mod 65536) mod 256"
proof -
  have "(256::int) dvd 65536" by simp
  then have "(y mod 65536) mod 256 = y mod 256" by (rule mod_mod_cancel)
  then show ?thesis by (simp add: and_255_mod)
qed

lemma transport_ok_update [simp]:
  "transport_ok (s\<lparr>dc := a\<rparr>) = transport_ok s"
  "transport_ok (s\<lparr>cs := b\<rparr>) = transport_ok s"
  "transport_ok (s\<lparr>rst := c\<rparr>) = transport_ok s"
  "transport_ok (s\<lparr>bus := d\<rparr>) = transport_ok s"
  "transport_ok (s\<lparr>spi_calls := e\<rparr>) = transport_ok s"
  "transport_ok (s\<lparr>polls := f\<rparr>) = transport_ok s"
  "transport_ok (s\<lparr>clock_us := g\<rparr>) = transport_ok s"
  "transport_ok (s\<lparr>console := h\<rparr>) = transport_ok s"
  "transport_ok (s\<lparr>reset_marks := i\<rparr>) = transport_ok s"
  by (simp_all add: transport_ok_def)

lemma busy_clears_update [simp]:
  "busy_clears (s\<lparr>dc := a\<rparr>) = busy_clears s"
  "busy_clears (s\<lparr>cs := b\<rparr>) = busy_clears s"
  "busy_clears (s\<lparr>rst := c\<rparr>) = busy_clears s"
  "busy_clears (s\<lparr>bus := d\<rparr>) = busy_clears s"
  "busy_clears (s\<lparr>spi_calls := e\<rparr>) = busy_clears s"
  "busy_clears (s\<lparr>polls := f\<rparr>) = busy_clears s"
  "busy_clears (s\<lparr>clock_us := g\<rparr>) = busy_clears s"
  "busy_clears (s\<lparr>console := h\<rparr>) = busy_clears s"
  "busy_clears (s\<lparr>reset_marks := i\<rparr>) = busy_clears s"
  by (simp_all add: busy_clears_def)

lemma send_command_sent:
  "transport_ok s \<Longrightarrow> is_byte c \<Longrightarrow>
   send_command c s =
     Done (s\<lparr>dc := 0, cs := 1, bus := bus s @ [Xfer 0 0 [c]], spi_calls := spi_calls s + 1\<rparr>)"
  by (simp add: send_command_ok transport_ok_def)

lemma send_data_sent:
  "transport_ok s \<Longrightarrow> is_byte d \<Longrightarrow>
   send_data d s =
     Done (s\<lparr>dc := 1, cs := 1, bus := bus s @ [Xfer 1 0 [d]], spi_calls := spi_calls s + 1\<rparr>)"
  by (simp add: send_data_ok transport_ok_def)

lemma send_bytes_sent:
  "transport_ok s \<Longrightarrow> list_all is_byte xs \<Longrightarrow>
   send_bytes xs s =
     Done (s\<lparr>dc := 1, cs := 1, bus := bus s @ [Xfer 1 0 xs], spi_calls := spi_calls s + 1\<rparr>)"
  by (simp add: send_bytes_ok transport_ok_def)

lemma send_command_Done:
  "send_command c s = Done s' \<longleftrightarrow>
     is_byte c \<and> \<not> spi_fault s (spi_calls s) \<and>
     s' = s\<lparr>dc := 0, cs := 1, bus := bus s @ [Xfer 0 0 [c]], spi_calls := spi_calls s + 1\<rparr>"
  by (cases "is_byte c"; cases "spi_fault s (spi_calls s)")
    (auto simp: send_command_ok send_command_fault send_command_bad)

lemma send_data_Done:
  "send_data d s = Done s' \<longleftrightarrow>
     is_byte d \<and> \<not> spi_fault s (spi_calls s) \<and>
     s' = s\<lparr>dc := 1, cs := 1, bus := bus s @ [Xfer 1 0 [d]], spi_calls := spi_calls s + 1\<rparr>"
  by (cases "is_byte d"; cases "spi_fault s (spi_calls s)")
    (auto simp: send_data_ok send_data_fault send_data_bad)

lemma send_bytes_Done:
  "send_bytes xs s = Done s' \<longleftrightarrow>
     list_all is_byte xs \<and> \<not> spi_fault s (spi_calls s) \<and>
     s' = s\<lparr>dc := 1, cs := 1, bus := bus s @ [Xfer 1 0 xs], spi_calls := spi_calls s + 1\<rparr>"
  by (cases "list_all is_byte xs"; cases "spi_fault s (spi_calls s)")
    (auto simp: send_bytes_ok send_bytes_fault send_bytes_bad)

lemma send_command_byte_Raised:
  "is_byte c \<Longrightarrow> send_command c s = Raised e t \<Longrightarrow> e = TransportError"
  by (cases "spi_fault s (spi_calls s)") (auto simp: send_command_ok send_command_fault)

lemma send_data_byte_Raised:
  "is_byte d \<Longrightarrow> send_data d s = Raised e t \<Longrightarrow> e = TransportError"
  by (cases "spi_fault s (spi_calls s)") (auto simp: send_data_ok send_data_fault)

lemma send_command_not_Diverges [simp]: "send_command c s \<noteq> Diverges"
  by (cases "is_byte c"; cases "spi_fault s (spi_calls s)")
    (auto simp: send_command_ok send_command_fault send_command_bad)

lemma send_data_not_Diverges [simp]: "send_data d s \<noteq> Diverges"
  by (cases "is_byte d"; cases "spi_fault s (spi_calls s)")
    (auto simp: send_data_ok send_data_fault send_data_bad)

lemma send_bytes_not_Diverges [simp]: "send_bytes xs s \<noteq> Diverges"
  by (cases "list_all is_byte xs"; cases "spi_fault s (spi_calls s)")
    (auto simp: send_bytes_ok send_bytes_fault send_bytes_bad)

lemma set_window_sent:
  "transport_ok s \<Longrightarrow>
   set_window x0 y0 x1 y1 s =
     Done (s\<lparr>dc := 1, cs := 1,
             bus := bus s @
               [Xfer 0 0 [0x44],
                Xfer 1 0 [drop_bit 3 x0 AND 0xFF], Xfer 1 0 [drop_bit 3 x1 AND 0xFF],
                Xfer 0 0 [0x45],
                Xfer 1 0 [y0 AND 0xFF], Xfer 1 0 [drop_bit 8 y0 AND 0xFF],
                Xfer 1 0 [y1 AND 0xFF], Xfer 1 0 [drop_bit 8 y1 AND 0xFF]],
             spi_calls := spi_calls s + 8\<rparr>)"
  by (simp add: set_window_def send_command_sent send_data_sent)

lemma set_cursor_sent:
  "transport_ok s \<Longrightarrow>
   set_cursor x y s =
     Done (s\<lparr>dc := 1, cs := 1,
             bus := bus s @
               [Xfer 0 0 [0x4E], Xfer 1 0 [x AND 0xFF],
                Xfer 0 0 [0x4F], Xfer 1 0 [y AND 0xFF], Xfer 1 0 [drop_bit 8 y AND 0xFF]],
             spi_calls := spi_calls s + 5\<rparr>)"
  by (simp add: set_cursor_def send_command_sent send_data_sent)

lemma set_window_Done_bus:
  "set_window x0 y0 x1 y1 s = Done s' \<Longrightarrow>
   bus s' = bus s @
     [Xfer 0 0 [0x44],
      Xfer 1 0 [drop_bit 3 x0 AND 0xFF], Xfer 1 0 [drop_bit 3 x1 AND 0xFF],
      Xfer 0 0 [0x45],
      Xfer 1 0 [y0 AND 0xFF], Xfer 1 0 [drop_bit 8 y0 AND 0xFF],
      Xfer 1 0 [y1 AND 0xFF], Xfer 1 0 [drop_bit 8 y1 AND 0xFF]]"
  by (auto simp del: run.simps(2)
      simp: set_window_def run_Cons_Done send_command_Done send_data_Done)

lemma set_cursor_Done_bus:
  "set_cursor x y s = Done s' \<Longrightarrow>
   bus s' = bus s @
     [Xfer 0 0 [0x4E], Xfer 1 0 [x AND 0xFF],
      Xfer 0 0 [0x4F], Xfer 1 0 [y AND 0xFF], Xfer 1 0 [drop_bit 8 y AND 0xFF]]"
  by (auto simp del: run.simps(2)
      simp: set_cursor_def run_Cons_Done send_command_Done send_data_Done)

lemma run_Raised_only:
  "(\<forall>f\<in>set fs. \<forall>s e t. f s = Raised e t \<longrightarrow> P e) \<Longrightarrow> run fs s = Raised e t \<Longrightarrow> P e"
proof (induction fs arbitrary: s)
  case Nil
  then show ?case by simp
next
  case (Cons f fs)
  from Cons.prems(2) consider "f s = Raised e t" | u where "f s = Done u" "run fs u = Raised e t"
    by (auto simp del: run.simps(2) simp: run_Cons_Raised)
  then show ?case
  proof cases
    case 1
    with Cons.prems(1) show ?thesis by auto
  next
    case 2
    from Cons.prems(1) have "\<forall>f\<in>set fs. \<forall>s e t. f s = Raised e t \<longrightarrow> P e" by simp
    from Cons.IH [OF this 2(2)] show ?thesis .
  qed
qed

lemma run_not_Diverges:
  "(\<forall>f\<in>set fs. \<forall>s. f s \<noteq> Diverges) \<Longrightarrow> run fs s \<noteq> Diverges"
proof (induction fs arbitrary: s)
  case Nil
  then show ?case by simp
next
  case (Cons f fs)
  show ?case
  proof (cases "f s")
    case (Done u)
    with Cons show ?thesis by simp
  next
    case (Raised e u)
    then show ?thesis by simp
  next
    case Diverges
    with Cons.prems show ?thesis by simp
  qed
qed

lemma set_window_Raised:
  "set_window x0 y0 x1 y1 s = Raised e t \<Longrightarrow> e = TransportError"
  unfolding set_window_def
  by (erule run_Raised_only [rotated])
    (auto dest: send_command_byte_Raised [rotated] send_data_byte_Raised [rotated])

lemma set_cursor_Raised:
  "set_cursor x y s = Raised e t \<Longrightarrow> e = TransportError"
  unfolding set_cursor_def
  by (erule run_Raised_only [rotated])
    (auto dest: send_command_byte_Raised [rotated] send_data_byte_Raised [rotated])

lemma set_window_not_Diverges: "set_window x0 y0 x1 y1 s \<noteq> Diverges"
  unfolding set_window_def by (rule run_not_Diverges) simp

lemma set_cursor_not_Diverges: "set_cursor x y s \<noteq> Diverges"
  unfolding set_cursor_def by (rule run_not_Diverges) simp

text \<open>
  C5. Whenever \<open>set_window\<close> returns, it has sent opcode 0x44 followed by the two bytes
  \<open>(x >> 3) & 0xFF\<close> of the X coordinates, and opcode 0x45 followed by the Y coordinates, low
  byte first; for X in \<open>[0, width)\<close> that byte is \<open>x div 8\<close>, and for Y in the 16-bit range
  the pair is \<open>(y mod 256, y div 256)\<close>. So the calls with \<open>x = 0\<close> and with \<open>x = 5\<close> do the
  same thing, and \<open>set_window(0, 0, 121, 249)\<close> sends 0x00, 0x0F under 0x44 and
  0x00, 0x00, 0xF9, 0x00 under 0x45. With a transport that does not fail the call returns.
\<close>

theorem set_window_encoding:
  "(set_window x0 y0 x1 y1 s = Done s' \<longrightarrow>
      bus s' = bus s @
        [Xfer 0 0 [0x44],
         Xfer 1 0 [drop_bit 3 x0 AND 0xFF], Xfer 1 0 [drop_bit 3 x1 AND 0xFF],
         Xfer 0 0 [0x45],
         Xfer 1 0 [y0 AND 0xFF], Xfer 1 0 [drop_bit 8 y0 AND 0xFF],
         Xfer 1 0 [y1 AND 0xFF], Xfer 1 0 [drop_bit 8 y1 AND 0xFF]]) \<and>
   (0 \<le> x \<and> x < width \<longrightarrow> drop_bit 3 x AND 0xFF = x div 8 \<and> is_byte (x div 8)) \<and>
   (0 \<le> y \<and> y < (65536::int) \<longrightarrow>
      y AND 0xFF = y mod 256 \<and> drop_bit 8 y AND 0xFF = y div 256 \<and>
      (y AND 0xFF) + 256 * (drop_bit 8 y AND 0xFF) = y) \<and>
   set_window 5 y0 x1 y1 s = set_window 0 y0 x1 y1 s \<and>
   set_window x0 y0 5 y1 s = set_window x0 y0 0 y1 s \<and>
   (set_window 0 0 121 249 s = Done s' \<longrightarrow>
      bus s' = bus s @
        [Xfer 0 0 [0x44], Xfer 1 0 [0x00], Xfer 1 0 [0x0F],
         Xfer 0 0 [0x45], Xfer 1 0 [0x00], Xfer 1 0 [0x00], Xfer 1 0 [0xF9], Xfer 1 0 [0x00]]) \<and>
   (transport_ok s \<longrightarrow> returned (set_window x0 y0 x1 y1 s))"
proof -
  have x: "drop_bit 3 x AND 0xFF = x div 8 \<and> is_byte (x div 8)" if "0 \<le> x" "x < width"
  proof -
    from that have "0 \<le> x div 8" "x div 8 < 256"
      by (simp_all add: width_def DISPLAY_WIDTH_def)
    then show ?thesis by (simp add: shift3_byte is_byte_def)
  qed
  have y: "y AND 0xFF = y mod 256 \<and> drop_bit 8 y AND 0xFF = y div 256 \<and>
      (y AND 0xFF) + 256 * (drop_bit 8 y AND 0xFF) = y" if "0 \<le> y" "y < (65536::int)"
  proof -
    from that have "y mod 65536 = y" by simp
    with shift8_byte [of y] have hi: "drop_bit 8 y AND 0xFF = y div 256" by simp
    have lo: "y AND 0xFF = y mod 256" by (rule and_255_mod)
    show ?thesis unfolding hi lo by simp
  qed
  have five: "set_window 5 y0 x1 y1 s = set_window 0 y0 x1 y1 s"
    "set_window x0 y0 5 y1 s = set_window x0 y0 0 y1 s"
    by (simp_all add: set_window_def)
  have full: "bus s' = bus s @
        [Xfer 0 0 [0x44], Xfer 1 0 [0x00], Xfer 1 0 [0x0F],
         Xfer 0 0 [0x45], Xfer 1 0 [0x00], Xfer 1 0 [0x00], Xfer 1 0 [0xF9], Xfer 1 0 [0x00]]"
    if "set_window 0 0 121 249 s = Done s'"
    using set_window_Done_bus [OF that] by simp
  have ret: "returned (set_window x0 y0 x1 y1 s)" if "transport_ok s"
    using that by (simp add: set_window_sent)
  from x y five full ret set_window_Done_bus [of x0 y0 x1 y1 s s'] show ?thesis
    by blast
qed

theorem set_window_encoding_witness:
  "set_window 0 0 121 249 (new_display no_fault idle_line) =
     Done ((new_display no_fault idle_line)\<lparr>dc := 1, cs := 1,
        bus := [Xfer 0 0 [0x44], Xfer 1 0 [0x00], Xfer 1 0 [0x0F],
                Xfer 0 0 [0x45], Xfer 1 0 [0x00], Xfer 1 0 [0x00], Xfer 1 0 [0xF9],
                Xfer 1 0 [0x00]],
        spi_calls := 8\<rparr>) \<and>
   bus ((new_display no_fault idle_line)\<lparr>dc := 1, cs := 1,
        bus := [Xfer 0 0 [0x44], Xfer 1 0 [0x00], Xfer 1 0 [0x0F],
                Xfer 0 0 [0x45], Xfer 1 0 [0x00], Xfer 1 0 [0x00], Xfer 1 0 [0xF9],
                Xfer 1 0 [0x00]],
        spi_calls := 8\<rparr>) =
     bus (new_display no_fault idle_line) @
       [Xfer 0 0 [0x44], Xfer 1 0 [0x00], Xfer 1 0 [0x0F],
        Xfer 0 0 [0x45], Xfer 1 0 [0x00], Xfer 1 0 [0x00], Xfer 1 0 [0xF9], Xfer 1 0 [0x00]] \<and>
   (0::int) \<le> 121 \<and> 121 < width \<and> drop_bit 3 (121::int) AND 0xFF = 121 div 8 \<and>
   (0::int) \<le> 249 \<and> (249::int) < 65536 \<and> (249::int) AND 0xFF = 249 mod 256 \<and>
   returned (set_window 0 0 121 249 (new_display no_fault idle_line))"
proof -
  let ?s = "new_display no_fault idle_line"
  let ?s' = "?s\<lparr>dc := 1, cs := 1,
        bus := [Xfer 0 0 [0x44], Xfer 1 0 [0x00], Xfer 1 0 [0x0F],
                Xfer 0 0 [0x45], Xfer 1 0 [0x00], Xfer 1 0 [0x00], Xfer 1 0 [0xF9],
                Xfer 1 0 [0x00]],
        spi_calls := 8\<rparr>"
  have ok: "transport_ok ?s"
    by (simp add: transport_ok_def new_display_def no_fault_def)
  have run: "set_window 0 0 121 249 ?s = Done ?s'"
    by (simp add: set_window_sent [OF ok]) (simp add: new_display_def)
  have w: "(0::int) \<le> 121 \<and> 121 < width" by (simp add: width_def DISPLAY_WIDTH_def)
  have h: "(0::int) \<le> 249 \<and> (249::int) < 65536" by simp
  from run ok w h set_window_encoding [of 0 0 121 249 ?s ?s' 121 249] show ?thesis
    by simp
qed

text \<open>
  C4 (as the code has it). \<open>set_window\<close> makes no range check. For all integer coordinates,
  inside \<open>[0, width) \<times> [0, height)\<close> or not, it goes straight to the bus: with a transport
  that does not fail it returns, having sent 0x44 with the two X bytes and 0x45 with the four
  Y bytes; the only exception that can leave it is the transport's.
\<close>

theorem set_window_unchecked:
  "(transport_ok s \<longrightarrow>
      returned (set_window x0 y0 x1 y1 s) \<and>
      map_option bus (final_hw (set_window x0 y0 x1 y1 s)) =
        Some (bus s @
          [Xfer 0 0 [0x44],
           Xfer 1 0 [drop_bit 3 x0 AND 0xFF], Xfer 1 0 [drop_bit 3 x1 AND 0xFF],
           Xfer 0 0 [0x45],
           Xfer 1 0 [y0 AND 0xFF], Xfer 1 0 [drop_bit 8 y0 AND 0xFF],
           Xfer 1 0 [y1 AND 0xFF], Xfer 1 0 [drop_bit 8 y1 AND 0xFF]])) \<and>
   (\<forall>e t. set_window x0 y0 x1 y1 s = Raised e t \<longrightarrow> e = TransportError)"
  using set_window_Raised [of x0 y0 x1 y1 s] by (simp add: set_window_sent)

theorem set_window_unchecked_witness:
  "transport_ok (new_display no_fault idle_line) \<and>
   returned (set_window 200 300 130 251 (new_display no_fault idle_line)) \<and>
   map_option bus (final_hw (set_window 200 300 130 251 (new_display no_fault idle_line))) =
     Some [Xfer 0 0 [0x44], Xfer 1 0 [25], Xfer 1 0 [16],
           Xfer 0 0 [0x45], Xfer 1 0 [44], Xfer 1 0 [1], Xfer 1 0 [251], Xfer 1 0 [0]]"
proof -
  have ok: "transport_ok (new_display no_fault idle_line)"
    by (simp add: transport_ok_def new_display_def no_fault_def)
  have "bus (new_display no_fault idle_line) = []" by (simp add: new_display_def)
  with ok set_window_unchecked [of "new_display no_fault idle_line" 200 300 130 251]
  show ?thesis by simp
qed

text \<open>
  C4 as stated fails: with \<open>x0 = -1\<close>, \<open>y0 = 250\<close>, \<open>x1 = 122\<close>, \<open>y1 = 70000\<close>, none of them
  in range, \<open>set_window\<close> returns normally and has sent all eight frames.
\<close>

theorem set_window_out_of_range_counterexample:
  "\<not> (0 \<le> (-1::int)) \<and> \<not> (122 < width) \<and> \<not> (250 < height) \<and> \<not> (70000 < height) \<and>
   returned (set_window (-1) 250 122 70000 (new_display no_fault idle_line)) \<and>
   map_option bus (final_hw (set_window (-1) 250 122 70000 (new_display no_fault idle_line))) =
     Some [Xfer 0 0 [0x44], Xfer 1 0 [0xFF], Xfer 1 0 [0x0F],
           Xfer 0 0 [0x45], Xfer 1 0 [0xFA], Xfer 1 0 [0x00], Xfer 1 0 [0x70], Xfer 1 0 [0x11]]"
proof -
  have ok: "transport_ok (new_display no_fault idle_line)"
    by (simp add: transport_ok_def new_display_def no_fault_def)
  have "bus (new_display no_fault idle_line) = []" by (simp add: new_display_def)
  then show ?thesis
    by (simp add: set_window_sent [OF ok] width_def height_def DISPLAY_WIDTH_def
        DISPLAY_HEIGHT_def)
qed

text \<open>
  C10. For all integers \<open>x\<close> and \<open>y\<close>, negative or beyond the panel, \<open>set_window\<close> and
  \<open>set_cursor\<close> never raise on account of the coordinates (the one exception that can leave
  them is the transport's) and never loop; when the transport does not fail they return,
  having sent each coordinate reduced to its field: \<open>set_window\<close> sends \<open>(x div 8) mod 256\<close>
  for each X and \<open>y mod 2^16\<close>, low byte then high byte, for each Y; \<open>set_cursor\<close> sends
  \<open>x mod 256\<close> and \<open>y mod 2^16\<close>, low byte then high byte.
\<close>

theorem window_cursor_reduce_coordinates:
  "(\<forall>e t. set_window x0 y0 x1 y1 s = Raised e t \<longrightarrow> e = TransportError) \<and>
   set_window x0 y0 x1 y1 s \<noteq> Diverges \<and>
   (\<forall>e t. set_cursor x y s = Raised e t \<longrightarrow> e = TransportError) \<and>
   set_cursor x y s \<noteq> Diverges \<and>
   (transport_ok s \<longrightarrow>
      set_window x0 y0 x1 y1 s =
        Done (s\<lparr>dc := 1, cs := 1,
                bus := bus s @
                  [Xfer 0 0 [0x44],
                   Xfer 1 0 [(x0 div 8) mod 256], Xfer 1 0 [(x1 div 8) mod 256],
                   Xfer 0 0 [0x45],
                   Xfer 1 0 [(y0 mod 65536) mod 256], Xfer 1 0 [(y0 mod 65536) div 256],
                   Xfer 1 0 [(y1 mod 65536) mod 256], Xfer 1 0 [(y1 mod 65536) div 256]],
                spi_calls := spi_calls s + 8\<rparr>)) \<and>
   (transport_ok s \<longrightarrow>
      set_cursor x y s =
        Done (s\<lparr>dc := 1, cs := 1,
                bus := bus s @
                  [Xfer 0 0 [0x4E], Xfer 1 0 [x mod 256],
                   Xfer 0 0 [0x4F],
                   Xfer 1 0 [(y mod 65536) mod 256], Xfer 1 0 [(y mod 65536) div 256]],
                spi_calls := spi_calls s + 5\<rparr>))"
proof -
  have w: "set_window x0 y0 x1 y1 s =
        Done (s\<lparr>dc := 1, cs := 1,
                bus := bus s @
                  [Xfer 0 0 [0x44],
                   Xfer 1 0 [(x0 div 8) mod 256], Xfer 1 0 [(x1 div 8) mod 256],
                   Xfer 0 0 [0x45],
                   Xfer 1 0 [(y0 mod 65536) mod 256], Xfer 1 0 [(y0 mod 65536) div 256],
                   Xfer 1 0 [(y1 mod 65536) mod 256], Xfer 1 0 [(y1 mod 65536) div 256]],
                spi_calls := spi_calls s + 8\<rparr>)" if "transport_ok s"
    unfolding set_window_sent [OF that] shift3_byte shift8_byte low_byte [of y0] low_byte [of y1] ..
  have c: "set_cursor x y s =
        Done (s\<lparr>dc := 1, cs := 1,
                bus := bus s @
                  [Xfer 0 0 [0x4E], Xfer 1 0 [x mod 256],
                   Xfer 0 0 [0x4F],
                   Xfer 1 0 [(y mod 65536) mod 256], Xfer 1 0 [(y mod 65536) div 256]],
                spi_calls := spi_calls s + 5\<rparr>)" if "transport_ok s"
    unfolding set_cursor_sent [OF that] shift8_byte low_byte [of y] and_255_mod [of x] ..
  from w c set_window_Raised [of x0 y0 x1 y1 s] set_cursor_Raised [of x y s]
    set_window_not_Diverges [of x0 y0 x1 y1 s] set_cursor_not_Diverges [of x y s]
  show ?thesis by blast
qed

theorem window_cursor_reduce_coordinates_witness:
  "transport_ok (new_display no_fault idle_line) \<and>
   set_cursor 300 (-2) (new_display no_fault idle_line) =
     Done ((new_display no_fault idle_line)\<lparr>dc := 1, cs := 1,
        bus := [Xfer 0 0 [0x4E], Xfer 1 0 [44], Xfer 0 0 [0x4F], Xfer 1 0 [0xFE], Xfer 1 0 [0xFF]],
        spi_calls := 5\<rparr>) \<and>
   set_window (-1) 250 122 70000 (new_display no_fault idle_line) =
     Done ((new_display no_fault idle_line)\<lparr>dc := 1, cs := 1,
        bus := [Xfer 0 0 [0x44], Xfer 1 0 [0xFF], Xfer 1 0 [0x0F],
                Xfer 0 0 [0x45], Xfer 1 0 [0xFA], Xfer 1 0 [0x00], Xfer 1 0 [0x70],
                Xfer 1 0 [0x11]],
        spi_calls := 8\<rparr>)"
proof -
  have ok: "transport_ok (new_display no_fault idle_line)"
    by (simp add: transport_ok_def new_display_def no_fault_def)
  have b: "bus (new_display no_fault idle_line) = []"
    "spi_calls (new_display no_fault idle_line) = 0"
    by (simp_all add: new_display_def)
  from ok window_cursor_reduce_coordinates [of "-1" 250 122 70000 "new_display no_fault idle_line" 300 "-2"]
  show ?thesis by (simp add: b)
qed

section \<open>Composite operations\<close>

lemma wait_until_idle_Done:
  assumes "wait_until_idle s = Done s'"
  shows "\<exists>n. busy_in s (polls s + n) \<noteq> 1 \<and> (\<forall>m<n. busy_in s (polls s + m) = 1) \<and>
     s' = s\<lparr>polls := polls s + n + 1, clock_us := clock_us s + 10000 * n,
             console := console s @ [''e-Paper: waiting for display to be ready...'',
                                     ''e-Paper: display ready'']\<rparr>"
proof -
  from assms have "wait_until_idle s \<noteq> Diverges" by simp
  then have ex: "\<exists>n. busy_in s (polls s + n) \<noteq> 1"
    by (simp add: wait_until_idle_Diverges_iff)
  define k where "k = (LEAST n. busy_in s (polls s + n) \<noteq> 1)"
  have a: "busy_in s (polls s + k) \<noteq> 1" unfolding k_def using ex by (rule LeastI_ex)
  have b: "\<forall>m<k. busy_in s (polls s + m) = 1"
    unfolding k_def using not_less_Least by blast
  from wait_until_idle_first_idle [OF a b] assms a b show ?thesis by auto
qed

lemma wait_until_idle_clears:
  assumes "busy_clears s"
  shows "\<exists>n. wait_until_idle s =
     Done (s\<lparr>polls := polls s + n + 1, clock_us := clock_us s + 10000 * n,
             console := console s @ [''e-Paper: waiting for display to be ready...'',
                                     ''e-Paper: display ready'']\<rparr>)"
proof -
  from assms have ex: "\<exists>n. busy_in s (polls s + n) \<noteq> 1" by (simp add: busy_clears_def)
  define k where "k = (LEAST n. busy_in s (polls s + n) \<noteq> 1)"
  have a: "busy_in s (polls s + k) \<noteq> 1" unfolding k_def using ex by (rule LeastI_ex)
  have b: "\<forall>m<k. busy_in s (polls s + m) = 1"
    unfolding k_def using not_less_Least by blast
  from wait_until_idle_first_idle [OF a b] show ?thesis by blast
qed

lemma completes_run: "list_all completes fs \<Longrightarrow> completes (run fs)"
proof (induction fs)
  case Nil
  show ?case by (simp add: completes_def)
next
  case (Cons f fs)
  then have f: "completes f" and fs: "completes (run fs)" by simp_all
  show ?case unfolding completes_def
  proof (intro allI impI)
    fix s assume "transport_ok s \<and> busy_clears s"
    with f obtain t where t: "f s = Done t" "transport_ok t \<and> busy_clears t"
      unfolding completes_def by blast
    with fs obtain s' where "run fs t = Done s'" "transport_ok s' \<and> busy_clears s'"
      unfolding completes_def by blast
    with t show "\<exists>s'. run (f # fs) s = Done s' \<and> transport_ok s' \<and> busy_clears s'"
      by simp
  qed
qed

lemma emits_run: "list_all2 emits fs Ls \<Longrightarrow> emits (run fs) (concat Ls)"
proof (induction fs Ls rule: list_all2_induct)
  case Nil
  show ?case by (simp add: emits_def)
next
  case (Cons f fs L Ls)
  show ?case unfolding emits_def
  proof (intro allI impI)
    fix s s' assume "run (f # fs) s = Done s'"
    then obtain t where "f s = Done t" "run fs t = Done s'"
      unfolding run_Cons_Done by blast
    with Cons.hyps(1) Cons.IH have "bus t = bus s @ L" "bus s' = bus t @ concat Ls"
      unfolding emits_def by blast+
    then show "bus s' = bus s @ concat (L # Ls)" by simp
  qed
qed

lemma completes_pins [simp]:
  "completes (rst_value v)" "completes (dc_value v)" "completes (cs_value v)"
  "completes (sleep_us n)" "completes (sleep_ms n)" "completes (print_line msg)"
  by (simp_all add: completes_def rst_value_def dc_value_def cs_value_def sleep_us_def
      sleep_ms_def print_line_def)

lemma emits_pins [simp]:
  "emits (rst_value v) []" "emits (dc_value v) []" "emits (cs_value v) []"
  "emits (sleep_us n) []" "emits (sleep_ms n) []" "emits (print_line msg) []"
  by (simp_all add: emits_def rst_value_def dc_value_def cs_value_def sleep_us_def
      sleep_ms_def print_line_def)

lemma completes_send [simp]:
  "is_byte c \<Longrightarrow> completes (send_command c)"
  "is_byte c \<Longrightarrow> completes (send_data c)"
  "list_all is_byte xs \<Longrightarrow> completes (send_bytes xs)"
  by (simp_all add: completes_def send_command_sent send_data_sent send_bytes_sent)

lemma emits_send [simp]:
  "emits (send_command c) [Xfer 0 0 [c]]"
  "emits (send_data c) [Xfer 1 0 [c]]"
  "emits (send_bytes xs) [Xfer 1 0 xs]"
  by (simp_all add: emits_def send_command_Done send_data_Done send_bytes_Done)

lemma emits_data_Suc [simp]:
  "emits (send_data c) [Xfer (Suc 0) 0 [c]]"
  "emits (send_bytes xs) [Xfer (Suc 0) 0 xs]"
  using emits_send (2) [of c] emits_send (3) [of xs] by simp_all

lemma completes_wait_until_idle [simp]: "completes wait_until_idle"
  unfolding completes_def
proof (intro allI impI)
  fix s assume h: "transport_ok s \<and> busy_clears s"
  then obtain n where "wait_until_idle s =
     Done (s\<lparr>polls := polls s + n + 1, clock_us := clock_us s + 10000 * n,
             console := console s @ [''e-Paper: waiting for display to be ready...'',
                                     ''e-Paper: display ready'']\<rparr>)"
    using wait_until_idle_clears by blast
  with h show "\<exists>s'. wait_until_idle s = Done s' \<and> transport_ok s' \<and> busy_clears s'"
    by simp
qed

lemma emits_wait_until_idle [simp]: "emits wait_until_idle []"
  unfolding emits_def using wait_until_idle_Done by fastforce

lemma completes_ops [simp]:
  "completes power_off"
  "completes hw_reset"
  "completes sw_reset"
  "completes set_display_size_and_driver_output"
  "completes (set_ram_data_entry_mode None)"
  "is_byte m \<Longrightarrow> completes (set_ram_data_entry_mode (Some m))"
  "completes display_update"
  "completes (set_window x0 y0 x1 y1)"
  "completes (set_cursor x y)"
  "completes (set_border None)"
  "is_byte b \<Longrightarrow> completes (set_border (Some b))"
  "completes deep_sleep"
  by (simp_all add: power_off_def hw_reset_def sw_reset_def
      set_display_size_and_driver_output_def set_ram_data_entry_mode_def display_update_def
      set_window_def set_cursor_def set_border_def deep_sleep_def completes_run)

lemma completes_turn_on_display [simp]: "completes turn_on_display"
  by (simp add: turn_on_display_def completes_run)

lemma completes_init [simp]: "completes init"
  by (simp add: init_def completes_run)

lemma completes_display [simp]: "list_all is_byte img \<Longrightarrow> completes (display img)"
  by (simp add: display_def completes_run)

lemma emits_hw_reset: "emits hw_reset []"
  unfolding hw_reset_def
  using emits_run [of "[rst_value 1, sleep_us 200, rst_value 0, sleep_us 200, rst_value 1,
      sleep_us 200, wait_until_idle]" "[[], [], [], [], [], [], []]"]
  by simp

lemma emits_sw_reset: "emits sw_reset [Xfer 0 0 [0x12]]"
  unfolding sw_reset_def
  using emits_run [of "[send_command 0x12, sleep_ms 10, wait_until_idle]"
      "[[Xfer 0 0 [0x12]], [], []]"]
  by simp

lemma emits_set_display_size_and_driver_output:
  "emits set_display_size_and_driver_output
     [Xfer 0 0 [0x01], Xfer 1 0 [0xF9], Xfer 1 0 [0x00], Xfer 1 0 [0x00]]"
  unfolding set_display_size_and_driver_output_def
  using emits_run [of "[send_command 0x01, send_data 0xf9, send_data 0x00, send_data 0x00]"
      "[[Xfer 0 0 [0x01]], [Xfer 1 0 [0xF9]], [Xfer 1 0 [0x00]], [Xfer 1 0 [0x00]]]"]
  by simp

lemma emits_set_ram_data_entry_mode:
  "emits (set_ram_data_entry_mode mode)
     [Xfer 0 0 [0x11], Xfer 1 0 [case mode of None \<Rightarrow> 0x03 | Some m \<Rightarrow> m]]"
  unfolding set_ram_data_entry_mode_def
  using emits_run [of "[send_command 0x11, send_data (case mode of None \<Rightarrow> 0x03 | Some m \<Rightarrow> m)]"
      "[[Xfer 0 0 [0x11]], [Xfer 1 0 [case mode of None \<Rightarrow> 0x03 | Some m \<Rightarrow> m]]]"]
  by simp

lemma emits_set_border:
  "emits (set_border v) [Xfer 0 0 [0x3C], Xfer 1 0 [case v of None \<Rightarrow> 0xC0 | Some b \<Rightarrow> b]]"
  unfolding set_border_def
  using emits_run [of "[send_command 0x3C, send_data (case v of None \<Rightarrow> 0xC0 | Some b \<Rightarrow> b)]"
      "[[Xfer 0 0 [0x3C]], [Xfer 1 0 [case v of None \<Rightarrow> 0xC0 | Some b \<Rightarrow> b]]]"]
  by simp

lemma emits_deep_sleep: "emits deep_sleep [Xfer 0 0 [0x10], Xfer 1 0 [0x01]]"
  unfolding deep_sleep_def
  using emits_run [of "[send_command 0x10, send_data 0x01]"
      "[[Xfer 0 0 [0x10]], [Xfer 1 0 [0x01]]]"]
  by simp

lemma emits_display_update: "emits display_update [Xfer 0 0 [0x22], Xfer 1 0 [0xF7]]"
  unfolding display_update_def
  using emits_run [of "[send_command 0x22, send_data 0xF7]"
      "[[Xfer 0 0 [0x22]], [Xfer 1 0 [0xF7]]]"]
  by simp

lemma emits_turn_on_display:
  "emits turn_on_display [Xfer 0 0 [0x22], Xfer 1 0 [0xF7], Xfer 0 0 [0x20]]"
  unfolding turn_on_display_def
  using emits_run [of "[display_update, send_command 0x20, wait_until_idle]"
      "[[Xfer 0 0 [0x22], Xfer 1 0 [0xF7]], [Xfer 0 0 [0x20]], []]"]
    emits_display_update
  by simp

lemma emits_set_window:
  "emits (set_window x0 y0 x1 y1)
     [Xfer 0 0 [0x44],
      Xfer 1 0 [drop_bit 3 x0 AND 0xFF], Xfer 1 0 [drop_bit 3 x1 AND 0xFF],
      Xfer 0 0 [0x45],
      Xfer 1 0 [y0 AND 0xFF], Xfer 1 0 [drop_bit 8 y0 AND 0xFF],
      Xfer 1 0 [y1 AND 0xFF], Xfer 1 0 [drop_bit 8 y1 AND 0xFF]]"
  unfolding emits_def using set_window_Done_bus by blast

lemma emits_set_cursor:
  "emits (set_cursor x y)
     [Xfer 0 0 [0x4E], Xfer 1 0 [x AND 0xFF],
      Xfer 0 0 [0x4F], Xfer 1 0 [y AND 0xFF], Xfer 1 0 [drop_bit 8 y AND 0xFF]]"
  unfolding emits_def using set_cursor_Done_bus by blast

lemma emits_init:
  "emits init
     [Xfer 0 0 [0x12],
      Xfer 0 0 [0x01], Xfer 1 0 [0xF9], Xfer 1 0 [0x00], Xfer 1 0 [0x00],
      Xfer 0 0 [0x11], Xfer 1 0 [0x03],
      Xfer 0 0 [0x44], Xfer 1 0 [0x00], Xfer 1 0 [0x0F],
      Xfer 0 0 [0x45], Xfer 1 0 [0x00], Xfer 1 0 [0x00], Xfer 1 0 [0xF9], Xfer 1 0 [0x00],
      Xfer 0 0 [0x3C], Xfer 1 0 [0xC0]]"
proof -
  have w: "emits (set_window 0 0 (width - 1) (height - 1))
     [Xfer 0 0 [0x44], Xfer 1 0 [0x00], Xfer 1 0 [0x0F],
      Xfer 0 0 [0x45], Xfer 1 0 [0x00], Xfer 1 0 [0x00], Xfer 1 0 [0xF9], Xfer 1 0 [0x00]]"
    using emits_set_window [of 0 0 "width - 1" "height - 1"]
    by (simp add: width_def height_def DISPLAY_WIDTH_def DISPLAY_HEIGHT_def)
  show ?thesis
    unfolding init_def
    using emits_run [of "[hw_reset, sw_reset, set_display_size_and_driver_output,
          set_ram_data_entry_mode None, set_window 0 0 (width - 1) (height - 1),
          set_border None, wait_until_idle]"
        "[[], [Xfer 0 0 [0x12]],
          [Xfer 0 0 [0x01], Xfer 1 0 [0xF9], Xfer 1 0 [0x00], Xfer 1 0 [0x00]],
          [Xfer 0 0 [0x11], Xfer 1 0 [0x03]],
          [Xfer 0 0 [0x44], Xfer 1 0 [0x00], Xfer 1 0 [0x0F],
           Xfer 0 0 [0x45], Xfer 1 0 [0x00], Xfer 1 0 [0x00], Xfer 1 0 [0xF9], Xfer 1 0 [0x00]],
          [Xfer 0 0 [0x3C], Xfer 1 0 [0xC0]], []]"]
      w emits_hw_reset emits_sw_reset emits_set_display_size_and_driver_output
      emits_set_ram_data_entry_mode [of None] emits_set_border [of None]
    by simp
qed

lemma emits_display:
  "emits (display img)
     [Xfer 0 0 [0x4E], Xfer 1 0 [0x00], Xfer 0 0 [0x4F], Xfer 1 0 [0x00], Xfer 1 0 [0x00],
      Xfer 0 0 [0x24], Xfer 1 0 img,
      Xfer 0 0 [0x22], Xfer 1 0 [0xF7], Xfer 0 0 [0x20]]"
  unfolding display_def
  using emits_run [of "[set_cursor 0 0, send_command 0x24, send_bytes img, turn_on_display]"
      "[[Xfer 0 0 [0x4E], Xfer 1 0 [0x00], Xfer 0 0 [0x4F], Xfer 1 0 [0x00], Xfer 1 0 [0x00]],
        [Xfer 0 0 [0x24]], [Xfer 1 0 img],
        [Xfer 0 0 [0x22], Xfer 1 0 [0xF7], Xfer 0 0 [0x20]]]"]
    emits_set_cursor [of 0 0] emits_turn_on_display
  by simp

section \<open>Initialisation\<close>

text \<open>
  C7. Whenever \<open>init\<close> returns, what it has sent is: the software reset 0x12; the driver
  output control 0x01 with the three data bytes 0xF9, 0x00, 0x00; the data entry mode 0x11
  with the one data byte 0x03; the full window; the border. Opcode 0x01 and opcode 0x11 each
  occur once among the frames of one \<open>init\<close>. With a transport that does not fail and a busy
  line that clears, \<open>init\<close> returns.
\<close>

theorem init_configures_once:
  "(init s = Done s' \<longrightarrow>
      bus s' = bus s @
        [Xfer 0 0 [0x12],
         Xfer 0 0 [0x01], Xfer 1 0 [0xF9], Xfer 1 0 [0x00], Xfer 1 0 [0x00],
         Xfer 0 0 [0x11], Xfer 1 0 [0x03],
         Xfer 0 0 [0x44], Xfer 1 0 [0x00], Xfer 1 0 [0x0F],
         Xfer 0 0 [0x45], Xfer 1 0 [0x00], Xfer 1 0 [0x00], Xfer 1 0 [0xF9], Xfer 1 0 [0x00],
         Xfer 0 0 [0x3C], Xfer 1 0 [0xC0]] \<and>
      count_list (drop (length (bus s)) (bus s')) (Xfer 0 0 [0x01]) = 1 \<and>
      count_list (drop (length (bus s)) (bus s')) (Xfer 0 0 [0x11]) = 1) \<and>
   (transport_ok s \<and> busy_clears s \<longrightarrow> returned (init s))"
proof -
  have "returned (init s)" if "transport_ok s \<and> busy_clears s"
  proof -
    from that completes_init obtain t where "init s = Done t"
      unfolding completes_def by blast
    then show ?thesis by simp
  qed
  moreover have "bus s' = bus s @
        [Xfer 0 0 [0x12],
         Xfer 0 0 [0x01], Xfer 1 0 [0xF9], Xfer 1 0 [0x00], Xfer 1 0 [0x00],
         Xfer 0 0 [0x11], Xfer 1 0 [0x03],
         Xfer 0 0 [0x44], Xfer 1 0 [0x00], Xfer 1 0 [0x0F],
         Xfer 0 0 [0x45], Xfer 1 0 [0x00], Xfer 1 0 [0x00], Xfer 1 0 [0xF9], Xfer 1 0 [0x00],
         Xfer 0 0 [0x3C], Xfer 1 0 [0xC0]]" if "init s = Done s'"
    using emits_init that unfolding emits_def by blast
  ultimately show ?thesis by simp
qed

theorem init_configures_once_witness:
  "transport_ok (new_display no_fault (busy_for 2)) \<and>
   busy_clears (new_display no_fault (busy_for 2)) \<and>
   returned (init (new_display no_fault (busy_for 2))) \<and>
   map_option bus (final_hw (init (new_display no_fault (busy_for 2)))) =
     Some [Xfer 0 0 [0x12],
           Xfer 0 0 [0x01], Xfer 1 0 [0xF9], Xfer 1 0 [0x00], Xfer 1 0 [0x00],
           Xfer 0 0 [0x11], Xfer 1 0 [0x03],
           Xfer 0 0 [0x44], Xfer 1 0 [0x00], Xfer 1 0 [0x0F],
           Xfer 0 0 [0x45], Xfer 1 0 [0x00], Xfer 1 0 [0x00], Xfer 1 0 [0xF9], Xfer 1 0 [0x00],
           Xfer 0 0 [0x3C], Xfer 1 0 [0xC0]]"
proof -
  let ?s = "new_display no_fault (busy_for 2)"
  have ok: "transport_ok ?s"
    by (simp add: transport_ok_def new_display_def no_fault_def)
  have clr: "busy_clears ?s"
    unfolding busy_clears_def
  proof
    fix m
    have "busy_in ?s (m + 2) \<noteq> 1" by (simp add: new_display_def busy_for_def)
    then show "\<exists>n. busy_in ?s (m + n) \<noteq> 1" ..
  qed
  from ok clr have r: "returned (init ?s)"
    using init_configures_once [of ?s] by blast
  then obtain t where t: "init ?s = Done t" by (cases "init ?s") simp_all
  have "bus ?s = []" by (simp add: new_display_def)
  with t init_configures_once [of ?s t] ok clr show ?thesis by simp
qed

section \<open>Writing a frame\<close>

text \<open>
  C1 (as the code has it). \<open>display\<close> checks neither the length of the buffer nor any
  state. For every buffer, of whatever length: whenever the call returns it has sent the
  cursor (0, 0), opcode 0x24, the whole buffer as one burst, and the refresh sequence; and it
  does return whenever the buffer holds byte values, no transport write fails and the busy
  line clears.
\<close>

theorem display_unchecked:
  "(display img s = Done s' \<longrightarrow>
      bus s' = bus s @
        [Xfer 0 0 [0x4E], Xfer 1 0 [0x00], Xfer 0 0 [0x4F], Xfer 1 0 [0x00], Xfer 1 0 [0x00],
         Xfer 0 0 [0x24], Xfer 1 0 img,
         Xfer 0 0 [0x22], Xfer 1 0 [0xF7], Xfer 0 0 [0x20]]) \<and>
   (list_all is_byte img \<and> transport_ok s \<and> busy_clears s \<longrightarrow> returned (display img s))"
proof -
  have "returned (display img s)" if "list_all is_byte img" "transport_ok s \<and> busy_clears s"
  proof -
    from that completes_display [of img] obtain t where "display img s = Done t"
      unfolding completes_def by blast
    then show ?thesis by simp
  qed
  moreover have "bus s' = bus s @
        [Xfer 0 0 [0x4E], Xfer 1 0 [0x00], Xfer 0 0 [0x4F], Xfer 1 0 [0x00], Xfer 1 0 [0x00],
         Xfer 0 0 [0x24], Xfer 1 0 img,
         Xfer 0 0 [0x22], Xfer 1 0 [0xF7], Xfer 0 0 [0x20]]" if "display img s = Done s'"
    using emits_display [of img] that unfolding emits_def by blast
  ultimately show ?thesis by blast
qed

lemma new_display_healthy:
  "transport_ok (new_display no_fault idle_line)" "busy_clears (new_display no_fault idle_line)"
  by (simp_all add: transport_ok_def busy_clears_def new_display_def no_fault_def idle_line_def)

lemma returned_final: "returned r \<Longrightarrow> \<exists>t. r = Done t"
  by (cases r) simp_all

theorem display_unchecked_witness:
  "list_all is_byte [0x0F, 0xF0, 0x00] \<and>
   transport_ok (new_display no_fault idle_line) \<and>
   busy_clears (new_display no_fault idle_line) \<and>
   returned (display [0x0F, 0xF0, 0x00] (new_display no_fault idle_line)) \<and>
   map_option bus (final_hw (display [0x0F, 0xF0, 0x00] (new_display no_fault idle_line))) =
     Some [Xfer 0 0 [0x4E], Xfer 1 0 [0x00], Xfer 0 0 [0x4F], Xfer 1 0 [0x00], Xfer 1 0 [0x00],
           Xfer 0 0 [0x24], Xfer 1 0 [0x0F, 0xF0, 0x00],
           Xfer 0 0 [0x22], Xfer 1 0 [0xF7], Xfer 0 0 [0x20]]"
proof -
  let ?s = "new_display no_fault idle_line"
  have b: "list_all is_byte [0x0F, 0xF0, 0x00]" by simp
  with new_display_healthy have r: "returned (display [0x0F, 0xF0, 0x00] ?s)"
    using display_unchecked [of "[0x0F, 0xF0, 0x00]" ?s] by blast
  then obtain t where t: "display [0x0F, 0xF0, 0x00] ?s = Done t"
    using returned_final by blast
  have "bus ?s = []" by (simp add: new_display_def)
  with t display_unchecked [of "[0x0F, 0xF0, 0x00]" ?s t] new_display_healthy b
  show ?thesis by simp
qed

text \<open>
  C1 as stated fails: a buffer of one byte, not of \<open>16 * 250\<close>, handed to \<open>display\<close> on a
  freshly constructed object is sent to the panel and the call returns.
\<close>

theorem display_short_buffer_counterexample:
  "length [0xFF :: int] \<noteq> 4000 \<and>
   returned (display [0xFF] (new_display no_fault idle_line)) \<and>
   map_option bus (final_hw (display [0xFF] (new_display no_fault idle_line))) =
     Some [Xfer 0 0 [0x4E], Xfer 1 0 [0x00], Xfer 0 0 [0x4F], Xfer 1 0 [0x00], Xfer 1 0 [0x00],
           Xfer 0 0 [0x24], Xfer 1 0 [0xFF],
           Xfer 0 0 [0x22], Xfer 1 0 [0xF7], Xfer 0 0 [0x20]]"
proof -
  let ?s = "new_display no_fault idle_line"
  have "list_all is_byte [0xFF]" by simp
  then have "completes (display [0xFF])" by (rule completes_display)
  with new_display_healthy obtain t where t: "display [0xFF] ?s = Done t"
    unfolding completes_def by blast
  have "bus ?s = []" by (simp add: new_display_def)
  with t emits_display [of "[0xFF]"] show ?thesis
    unfolding emits_def by simp
qed

section \<open>Clearing\<close>

lemma clear_buffer_replicate: "clear_buffer c = replicate 4000 c"
  by (simp add: clear_buffer_def width_def height_def DISPLAY_WIDTH_def DISPLAY_HEIGHT_def)

lemma clear_buffer_bytes: "is_byte c \<Longrightarrow> list_all is_byte (clear_buffer c)"
  unfolding clear_buffer_replicate by (simp add: list_all_iff)

text \<open>
  C6. For every fill value \<open>c\<close>, \<open>clear\<close> builds the buffer of \<open>ceil(width / 8) * height\<close>
  \<open>= 16 * 250 = 4000\<close> elements, each equal to \<open>c\<close>, and is then the call of \<open>display\<close> on
  that buffer: same outcome, same hardware afterwards. Left out, the fill value is 0xFF.
  With byte \<open>c\<close>, a transport that does not fail and a busy line that clears it returns, and
  what it sends then is the cursor, 0x24, the 4000 bytes as one burst, and the refresh.
\<close>

theorem clear_is_display_of_filled_buffer:
  "clear_buffer c = replicate 4000 c \<and>
   int (length (clear_buffer c)) = ((width + 7) div 8) * height \<and>
   clear (Some c) s = display (clear_buffer c) s \<and>
   clear None s = display (clear_buffer 0xFF) s \<and>
   (is_byte c \<and> transport_ok s \<and> busy_clears s \<longrightarrow> returned (clear (Some c) s)) \<and>
   (clear (Some c) s = Done s' \<longrightarrow>
      bus s' = bus s @
        [Xfer 0 0 [0x4E], Xfer 1 0 [0x00], Xfer 0 0 [0x4F], Xfer 1 0 [0x00], Xfer 1 0 [0x00],
         Xfer 0 0 [0x24], Xfer 1 0 (replicate 4000 c),
         Xfer 0 0 [0x22], Xfer 1 0 [0xF7], Xfer 0 0 [0x20]])"
proof -
  have len: "int (length (clear_buffer c)) = ((width + 7) div 8) * height"
    unfolding clear_buffer_replicate
    by (simp add: width_def height_def DISPLAY_WIDTH_def DISPLAY_HEIGHT_def)
  have eq: "clear (Some c) s = display (clear_buffer c) s"
    "clear None s = display (clear_buffer 0xFF) s"
    by (simp_all add: clear_def)
  have ret: "returned (clear (Some c) s)" if "is_byte c" "transport_ok s \<and> busy_clears s"
  proof -
    from that(1) have "completes (display (clear_buffer c))"
      by (intro completes_display clear_buffer_bytes)
    with that(2) obtain t where "display (clear_buffer c) s = Done t"
      unfolding completes_def by blast
    with eq(1) show ?thesis by simp
  qed
  have sent: "bus s' = bus s @
        [Xfer 0 0 [0x4E], Xfer 1 0 [0x00], Xfer 0 0 [0x4F], Xfer 1 0 [0x00], Xfer 1 0 [0x00],
         Xfer 0 0 [0x24], Xfer 1 0 (replicate 4000 c),
         Xfer 0 0 [0x22], Xfer 1 0 [0xF7], Xfer 0 0 [0x20]]" if "clear (Some c) s = Done s'"
  proof -
    from that eq(1) have "display (clear_buffer c) s = Done s'" by simp
    with emits_display [of "clear_buffer c"] show ?thesis
      unfolding emits_def clear_buffer_replicate by blast
  qed
  from len eq ret sent clear_buffer_replicate [of c] show ?thesis by blast
qed

theorem clear_is_display_of_filled_buffer_witness:
  "is_byte 0x00 \<and>
   transport_ok (new_display no_fault idle_line) \<and>
   busy_clears (new_display no_fault idle_line) \<and>
   returned (clear (Some 0x00) (new_display no_fault idle_line)) \<and>
   clear None (new_display no_fault idle_line) =
     display (clear_buffer 0xFF) (new_display no_fault idle_line)"
  using clear_is_display_of_filled_buffer [of 0 "new_display no_fault idle_line"]
    new_display_healthy is_byte_0
  by blast

section \<open>Refresh\<close>

lemma run_last: "(case r of Done x \<Rightarrow> run [] x | Raised e x \<Rightarrow> Raised e x | Diverges \<Rightarrow> Diverges) = r"
  by (cases r) simp_all

lemma Suc3: "Suc (Suc (Suc n)) = n + 3"
  by simp

lemma turn_on_display_Done:
  "turn_on_display s = Done s' \<Longrightarrow>
   wait_until_idle
     (s\<lparr>dc := 0, cs := 1,
        bus := bus s @ [Xfer 0 0 [0x22], Xfer 1 0 [0xF7], Xfer 0 0 [0x20]],
        spi_calls := spi_calls s + 3\<rparr>) = Done s'"
  by (auto simp del: run.simps(2)
      simp: turn_on_display_def display_update_def run_Cons_Done send_command_Done
        send_data_Done Suc3)

lemma turn_on_display_sent:
  "transport_ok s \<Longrightarrow>
   turn_on_display s =
     wait_until_idle
       (s\<lparr>dc := 0, cs := 1,
          bus := bus s @ [Xfer 0 0 [0x22], Xfer 1 0 [0xF7], Xfer 0 0 [0x20]],
          spi_calls := spi_calls s + 3\<rparr>)"
  by (simp add: turn_on_display_def display_update_def send_command_sent send_data_sent
      run_last Suc3)

lemma turn_on_display_effect:
  assumes "turn_on_display s = Done s'"
  shows "bus s' = bus s @ [Xfer 0 0 [0x22], Xfer 1 0 [0xF7], Xfer 0 0 [0x20]] \<and>
     rst s' = rst s \<and> dc s' = 0 \<and> cs s' = 1 \<and>
     polls s < polls s' \<and> busy_in s (polls s' - 1) \<noteq> 1 \<and>
     (\<forall>k. polls s \<le> k \<and> k < polls s' - 1 \<longrightarrow> busy_in s k = 1)"
proof -
  let ?t = "s\<lparr>dc := 0, cs := 1,
        bus := bus s @ [Xfer 0 0 [0x22], Xfer 1 0 [0xF7], Xfer 0 0 [0x20]],
        spi_calls := spi_calls s + 3\<rparr>"
  from turn_on_display_Done [OF assms] wait_until_idle_Done [of ?t s']
  obtain n where n: "busy_in s (polls s + n) \<noteq> 1" "\<forall>m<n. busy_in s (polls s + m) = 1"
    and s': "s' = ?t\<lparr>polls := polls s + n + 1, clock_us := clock_us s + 10000 * n,
             console := console s @ [''e-Paper: waiting for display to be ready...'',
                                     ''e-Paper: display ready'']\<rparr>"
    by auto
  have "busy_in s k = 1" if "polls s \<le> k" "k < polls s + n" for k
  proof -
    from that have "k - polls s < n" "polls s + (k - polls s) = k" by simp_all
    with n(2) show ?thesis by metis
  qed
  with n(1) s' show ?thesis by simp
qed

lemma has_run_append: "has_run xs ys \<Longrightarrow> has_run xs (ys @ zs)"
proof (induction ys)
  case Nil
  then show ?case by (cases zs) simp_all
next
  case (Cons y ys)
  from Cons.prems consider "take (length xs) (y # ys) = xs" | "has_run xs ys" by auto
  then show ?case
  proof cases
    case 1
    then have "length (take (length xs) (y # ys)) = length xs" by simp
    then have le: "length xs - length (y # ys) = 0"
      unfolding length_take by linarith
    have "take (length xs) ((y # ys) @ zs) =
        take (length xs) (y # ys) @ take (length xs - length (y # ys)) zs"
      by (rule take_append)
    also have "\<dots> = xs" unfolding le 1 by simp
    finally have "take (length xs) (y # ys @ zs) = xs" by simp
    then show ?thesis by simp
  next
    case 2
    with Cons.IH show ?thesis by simp
  qed
qed

lemma has_run_nonempty: "has_run xs ys \<Longrightarrow> xs \<noteq> [] \<Longrightarrow> ys \<noteq> []"
  by (cases ys) simp_all

lemma keeps_reset_run: "list_all keeps_reset fs \<Longrightarrow> keeps_reset (run fs)"
proof (induction fs)
  case Nil
  show ?case by (simp add: keeps_reset_def)
next
  case (Cons f fs)
  then have f: "keeps_reset f" and fs: "keeps_reset (run fs)" by simp_all
  show ?case unfolding keeps_reset_def
  proof (intro allI impI)
    fix s s' assume "run (f # fs) s = Done s'"
    then obtain t where "f s = Done t" "run fs t = Done s'"
      unfolding run_Cons_Done by blast
    with f fs show "rst s' = rst s \<and> reset_marks s' = reset_marks s"
      unfolding keeps_reset_def by metis
  qed
qed

lemma keeps_reset_pins [simp]:
  "keeps_reset (dc_value v)" "keeps_reset (cs_value v)"
  "keeps_reset (sleep_us n)" "keeps_reset (sleep_ms n)" "keeps_reset (print_line msg)"
  by (auto simp: keeps_reset_def dc_value_def cs_value_def sleep_us_def sleep_ms_def
      print_line_def)

lemma keeps_reset_send [simp]:
  "keeps_reset (send_command c)" "keeps_reset (send_data c)" "keeps_reset (send_bytes xs)"
  by (auto simp: keeps_reset_def send_command_Done send_data_Done send_bytes_Done)

lemma keeps_reset_wait_until_idle [simp]: "keeps_reset wait_until_idle"
  unfolding keeps_reset_def using wait_until_idle_Done by fastforce

lemma keeps_reset_ops [simp]:
  "keeps_reset sw_reset"
  "keeps_reset set_display_size_and_driver_output"
  "keeps_reset (set_ram_data_entry_mode mode)"
  "keeps_reset display_update"
  "keeps_reset (set_window x0 y0 x1 y1)"
  "keeps_reset (set_cursor x y)"
  "keeps_reset (set_border v)"
  "keeps_reset deep_sleep"
  by (simp_all add: sw_reset_def set_display_size_and_driver_output_def
      set_ram_data_entry_mode_def display_update_def set_window_def set_cursor_def
      set_border_def deep_sleep_def keeps_reset_run)

lemma keeps_reset_turn_on_display [simp]: "keeps_reset turn_on_display"
  by (simp add: turn_on_display_def keeps_reset_run)

lemma hw_reset_Done:
  assumes "hw_reset s = Done t"
  shows "rst t = 1 \<and> reset_marks t = reset_marks s @ [length (bus s)] \<and> bus t = bus s"
proof -
  let ?u = "s\<lparr>rst := 1, reset_marks := reset_marks s @ [length (bus s)],
      clock_us := clock_us s + 200 + 200 + 200\<rparr>"
  from assms have "wait_until_idle ?u = Done t"
    by (simp add: hw_reset_def rst_value_def sleep_us_def run_last)
  from wait_until_idle_Done [OF this] show ?thesis by auto
qed

lemma init_Done_Ready:
  assumes "init s = Done s'"
  shows "panel_state s' = Ready"
proof -
  let ?rest = "[sw_reset, set_display_size_and_driver_output, set_ram_data_entry_mode None,
      set_window 0 0 (width - 1) (height - 1), set_border None, wait_until_idle]"
  from assms obtain t where t: "hw_reset s = Done t" "run ?rest t = Done s'"
    unfolding init_def run_Cons_Done by blast
  have "keeps_reset (run ?rest)" by (rule keeps_reset_run) simp
  with t(2) have "rst s' = rst t" "reset_marks s' = reset_marks t"
    unfolding keeps_reset_def by blast+
  with hw_reset_Done [OF t(1)]
  have r: "rst s' = 1" "reset_marks s' = reset_marks s @ [length (bus s)]" by simp_all
  from emits_init assms have b: "bus s' = bus s @ Xfer 0 0 [0x12] # configure_frames"
    unfolding emits_def configure_frames_def by simp
  have "drop (last (reset_marks s')) (bus s') = Xfer 0 0 [0x12] # configure_frames"
    by (simp add: r b)
  moreover have "Xfer 0 0 [0x10] \<notin> set (Xfer 0 0 [0x12] # configure_frames)"
    by (simp add: configure_frames_def)
  moreover have "has_run configure_frames (Xfer 0 0 [0x12] # configure_frames)"
    by (simp add: configure_frames_def)
  ultimately show ?thesis using r by (simp add: panel_state_def)
qed

lemma turn_on_display_keeps_Ready:
  assumes "panel_state s = Ready" and "turn_on_display s = Done s'"
  shows "panel_state s' = Ready"
proof -
  let ?m = "last (reset_marks s)"
  from assms(1) have marks: "reset_marks s \<noteq> []" and rst: "rst s = 1"
    by (auto simp: panel_state_def split: if_splits)
  with assms(1) have awake: "Xfer 0 0 [0x10] \<notin> set (drop ?m (bus s))"
    and conf: "has_run configure_frames (drop ?m (bus s))"
    by (auto simp: panel_state_def Let_def split: if_splits)
  have "configure_frames \<noteq> []" by (simp add: configure_frames_def)
  with conf have "drop ?m (bus s) \<noteq> []" by (rule has_run_nonempty)
  then have m: "?m \<le> length (bus s)" by simp
  from assms(2) keeps_reset_turn_on_display
  have k: "rst s' = rst s" "reset_marks s' = reset_marks s"
    unfolding keeps_reset_def by blast+
  from assms(2) emits_turn_on_display
  have b: "bus s' = bus s @ [Xfer 0 0 [0x22], Xfer 1 0 [0xF7], Xfer 0 0 [0x20]]"
    unfolding emits_def by blast
  from m have d: "drop (last (reset_marks s')) (bus s') =
      drop ?m (bus s) @ [Xfer 0 0 [0x22], Xfer 1 0 [0xF7], Xfer 0 0 [0x20]]"
    by (simp add: k b)
  from awake have "Xfer 0 0 [0x10] \<notin> set (drop (last (reset_marks s')) (bus s'))"
    unfolding d by simp
  moreover from conf have "has_run configure_frames (drop (last (reset_marks s')) (bus s'))"
    unfolding d by (rule has_run_append)
  ultimately show ?thesis using marks rst k by (simp add: panel_state_def)
qed

lemma turn_on_display_no_fault:
  assumes "\<not> spi_fault s (spi_calls s)" "\<not> spi_fault s (spi_calls s + 1)"
    "\<not> spi_fault s (spi_calls s + 2)"
  shows "turn_on_display s =
     wait_until_idle
       (s\<lparr>dc := 0, cs := 1,
          bus := bus s @ [Xfer 0 0 [0x22], Xfer 1 0 [0xF7], Xfer 0 0 [0x20]],
          spi_calls := spi_calls s + 3\<rparr>)"
  using assms
  by (simp add: turn_on_display_def display_update_def send_command_ok send_data_ok
      run_last Suc3)

lemma turn_on_display_fault_first:
  assumes "spi_fault s (spi_calls s)"
  shows "turn_on_display s =
     Raised TransportError (s\<lparr>dc := 0, cs := 0, spi_calls := spi_calls s + 1\<rparr>)"
  using assms
  by (simp add: turn_on_display_def display_update_def send_command_fault)

lemma turn_on_display_fault_second:
  assumes "\<not> spi_fault s (spi_calls s)" "spi_fault s (spi_calls s + 1)"
  shows "turn_on_display s =
     Raised TransportError
       (s\<lparr>dc := 1, cs := 0, bus := bus s @ [Xfer 0 0 [0x22]], spi_calls := spi_calls s + 2\<rparr>)"
  using assms
  by (simp add: turn_on_display_def display_update_def send_command_ok send_data_fault)

lemma turn_on_display_fault_third:
  assumes "\<not> spi_fault s (spi_calls s)" "\<not> spi_fault s (spi_calls s + 1)"
    "spi_fault s (spi_calls s + 2)"
  shows "turn_on_display s =
     Raised TransportError
       (s\<lparr>dc := 0, cs := 0, bus := bus s @ [Xfer 0 0 [0x22], Xfer 1 0 [0xF7]],
          spi_calls := spi_calls s + 3\<rparr>)"
  using assms
  by (simp add: turn_on_display_def display_update_def send_command_ok send_data_ok
      send_command_fault Suc3)

text \<open>
  C8. Every call of \<open>turn_on_display\<close> that returns has sent command 0x22, data 0xF7,
  command 0x20, and has then polled the busy line until a read was not 1: the three writes come
  first (a write that fails ends the call before any poll), and with three good writes the call
  is the busy wait started after them. Of two calls in a row the second sends the same three
  frames again and leaves the reset, data/command and chip-select lines exactly as the first
  left them. The state \<open>init\<close> leaves the panel in is Ready, and a call made in Ready leaves
  it Ready, the first time and the second. With a transport that does not fail and a busy line
  that clears, both calls return; on a busy line stuck at 1 the call never returns.
\<close>

theorem turn_on_display_repeatable:
  "(turn_on_display s = Done s1 \<longrightarrow>
      bus s1 = bus s @ [Xfer 0 0 [0x22], Xfer 1 0 [0xF7], Xfer 0 0 [0x20]] \<and>
      rst s1 = rst s \<and> dc s1 = 0 \<and> cs s1 = 1 \<and>
      polls s < polls s1 \<and> busy_in s (polls s1 - 1) \<noteq> 1 \<and>
      (\<forall>k. polls s \<le> k \<and> k < polls s1 - 1 \<longrightarrow> busy_in s k = 1)) \<and>
   (turn_on_display s = Done s1 \<and> turn_on_display s1 = Done s2 \<longrightarrow>
      bus s2 = bus s1 @ [Xfer 0 0 [0x22], Xfer 1 0 [0xF7], Xfer 0 0 [0x20]] \<and>
      rst s2 = rst s1 \<and> dc s2 = dc s1 \<and> cs s2 = cs s1) \<and>
   (transport_ok s \<and> busy_clears s \<longrightarrow>
      (\<exists>t1 t2. turn_on_display s = Done t1 \<and> turn_on_display t1 = Done t2)) \<and>
   (transport_ok s \<and> (\<forall>n. busy_in s (polls s + n) = 1) \<longrightarrow> turn_on_display s = Diverges) \<and>
   (\<not> spi_fault s (spi_calls s) \<and> \<not> spi_fault s (spi_calls s + 1) \<and>
    \<not> spi_fault s (spi_calls s + 2) \<longrightarrow>
      turn_on_display s =
        wait_until_idle
          (s\<lparr>dc := 0, cs := 1,
             bus := bus s @ [Xfer 0 0 [0x22], Xfer 1 0 [0xF7], Xfer 0 0 [0x20]],
             spi_calls := spi_calls s + 3\<rparr>)) \<and>
   (spi_fault s (spi_calls s) \<longrightarrow>
      turn_on_display s =
        Raised TransportError (s\<lparr>dc := 0, cs := 0, spi_calls := spi_calls s + 1\<rparr>)) \<and>
   (\<not> spi_fault s (spi_calls s) \<and> spi_fault s (spi_calls s + 1) \<longrightarrow>
      turn_on_display s =
        Raised TransportError
          (s\<lparr>dc := 1, cs := 0, bus := bus s @ [Xfer 0 0 [0x22]],
             spi_calls := spi_calls s + 2\<rparr>)) \<and>
   (\<not> spi_fault s (spi_calls s) \<and> \<not> spi_fault s (spi_calls s + 1) \<and>
    spi_fault s (spi_calls s + 2) \<longrightarrow>
      turn_on_display s =
        Raised TransportError
          (s\<lparr>dc := 0, cs := 0, bus := bus s @ [Xfer 0 0 [0x22], Xfer 1 0 [0xF7]],
             spi_calls := spi_calls s + 3\<rparr>)) \<and>
   (init s0 = Done s \<longrightarrow> panel_state s = Ready) \<and>
   (panel_state s = Ready \<and> turn_on_display s = Done s1 \<longrightarrow> panel_state s1 = Ready) \<and>
   (panel_state s = Ready \<and> turn_on_display s = Done s1 \<and> turn_on_display s1 = Done s2 \<longrightarrow>
      panel_state s2 = Ready)"
proof -
  have twice: "\<exists>t1 t2. turn_on_display s = Done t1 \<and> turn_on_display t1 = Done t2"
    if "transport_ok s \<and> busy_clears s"
  proof -
    from that completes_turn_on_display obtain t1
      where t1: "turn_on_display s = Done t1" "transport_ok t1 \<and> busy_clears t1"
      unfolding completes_def by blast
    with completes_turn_on_display obtain t2 where "turn_on_display t1 = Done t2"
      unfolding completes_def by blast
    with t1 show ?thesis by blast
  qed
  have stuck: "turn_on_display s = Diverges"
    if "transport_ok s" "\<forall>n. busy_in s (polls s + n) = 1"
    using that by (simp add: turn_on_display_sent wait_until_idle_Diverges_iff)
  have second: "bus s2 = bus s1 @ [Xfer 0 0 [0x22], Xfer 1 0 [0xF7], Xfer 0 0 [0x20]] \<and>
      rst s2 = rst s1 \<and> dc s2 = dc s1 \<and> cs s2 = cs s1"
    if "turn_on_display s = Done s1" "turn_on_display s1 = Done s2"
    using turn_on_display_effect [OF that(1)] turn_on_display_effect [OF that(2)] by simp
  have ready2: "panel_state s2 = Ready"
    if "panel_state s = Ready" "turn_on_display s = Done s1" "turn_on_display s1 = Done s2"
    using that turn_on_display_keeps_Ready by blast
  have lines: "?thesis" if
    "turn_on_display s = Done s1 \<longrightarrow>
      bus s1 = bus s @ [Xfer 0 0 [0x22], Xfer 1 0 [0xF7], Xfer 0 0 [0x20]] \<and>
      rst s1 = rst s \<and> dc s1 = 0 \<and> cs s1 = 1 \<and>
      polls s < polls s1 \<and> busy_in s (polls s1 - 1) \<noteq> 1 \<and>
      (\<forall>k. polls s \<le> k \<and> k < polls s1 - 1 \<longrightarrow> busy_in s k = 1)"
    using that twice stuck second ready2
      turn_on_display_no_fault [of s] turn_on_display_fault_first [of s]
      turn_on_display_fault_second [of s] turn_on_display_fault_third [of s]
      init_Done_Ready [of s0 s] turn_on_display_keeps_Ready [of s s1]
    by blast
  show ?thesis using turn_on_display_effect [of s s1] by (intro lines) blast
qed

theorem turn_on_display_repeatable_witness:
  "transport_ok (new_display no_fault idle_line) \<and>
   busy_clears (new_display no_fault idle_line) \<and>
   panel_state (new_display no_fault idle_line) = Unknown \<and>
   map_option panel_state (final_hw (init (new_display no_fault idle_line))) = Some Ready \<and>
   map_option panel_state (final_hw (run [init, turn_on_display]
       (new_display no_fault idle_line))) = Some Ready \<and>
   map_option panel_state (final_hw (run [init, turn_on_display, turn_on_display]
       (new_display no_fault idle_line))) = Some Ready \<and>
   map_option bus (final_hw (run [init, turn_on_display, turn_on_display]
       (new_display no_fault idle_line))) =
     Some [Xfer 0 0 [0x12],
           Xfer 0 0 [0x01], Xfer 1 0 [0xF9], Xfer 1 0 [0x00], Xfer 1 0 [0x00],
           Xfer 0 0 [0x11], Xfer 1 0 [0x03],
           Xfer 0 0 [0x44], Xfer 1 0 [0x00], Xfer 1 0 [0x0F],
           Xfer 0 0 [0x45], Xfer 1 0 [0x00], Xfer 1 0 [0x00], Xfer 1 0 [0xF9], Xfer 1 0 [0x00],
           Xfer 0 0 [0x3C], Xfer 1 0 [0xC0],
           Xfer 0 0 [0x22], Xfer 1 0 [0xF7], Xfer 0 0 [0x20],
           Xfer 0 0 [0x22], Xfer 1 0 [0xF7], Xfer 0 0 [0x20]] \<and>
   turn_on_display (new_display no_fault stuck_busy) = Diverges \<and>
   turn_on_display (new_display first_write_fails stuck_busy) =
     Raised TransportError
       ((new_display first_write_fails stuck_busy)\<lparr>dc := 0, cs := 0, spi_calls := 1\<rparr>)"
proof -
  let ?s = "new_display no_fault idle_line"
  have unknown: "panel_state ?s = Unknown"
    by (simp add: panel_state_def new_display_def)
  from new_display_healthy completes_init
  obtain t0 where t0: "init ?s = Done t0" "transport_ok t0 \<and> busy_clears t0"
    unfolding completes_def by blast
  from t0(2) turn_on_display_repeatable [of t0]
  obtain t1 t2 where t: "turn_on_display t0 = Done t1" "turn_on_display t1 = Done t2"
    by blast
  have b0: "bus t0 = [Xfer 0 0 [0x12],
           Xfer 0 0 [0x01], Xfer 1 0 [0xF9], Xfer 1 0 [0x00], Xfer 1 0 [0x00],
           Xfer 0 0 [0x11], Xfer 1 0 [0x03],
           Xfer 0 0 [0x44], Xfer 1 0 [0x00], Xfer 1 0 [0x0F],
           Xfer 0 0 [0x45], Xfer 1 0 [0x00], Xfer 1 0 [0x00], Xfer 1 0 [0xF9], Xfer 1 0 [0x00],
           Xfer 0 0 [0x3C], Xfer 1 0 [0xC0]]"
    using emits_init t0(1) unfolding emits_def by (simp add: new_display_def)
  from t0(1) t turn_on_display_repeatable [of t0 t1 t2 ?s]
  have r: "panel_state t0 = Ready" "panel_state t1 = Ready" "panel_state t2 = Ready"
    and b: "bus t1 = bus t0 @ [Xfer 0 0 [0x22], Xfer 1 0 [0xF7], Xfer 0 0 [0x20]]"
      "bus t2 = bus t1 @ [Xfer 0 0 [0x22], Xfer 1 0 [0xF7], Xfer 0 0 [0x20]]"
    by blast+
  have run1: "run [init, turn_on_display] ?s = Done t1"
    and run2: "run [init, turn_on_display, turn_on_display] ?s = Done t2"
    using t0(1) t by simp_all
  have "transport_ok (new_display no_fault stuck_busy)"
    "\<forall>n. busy_in (new_display no_fault stuck_busy)
        (polls (new_display no_fault stuck_busy) + n) = 1"
    by (simp_all add: transport_ok_def new_display_def no_fault_def stuck_busy_def)
  with turn_on_display_repeatable [of "new_display no_fault stuck_busy"]
  have stuck: "turn_on_display (new_display no_fault stuck_busy) = Diverges" by blast
  have "spi_fault (new_display first_write_fails stuck_busy)
      (spi_calls (new_display first_write_fails stuck_busy))"
    by (simp add: new_display_def first_write_fails_def)
  with turn_on_display_repeatable [of "new_display first_write_fails stuck_busy"]
  have "turn_on_display (new_display first_write_fails stuck_busy) =
     Raised TransportError
       ((new_display first_write_fails stuck_busy)\<lparr>dc := 0, cs := 0,
          spi_calls := spi_calls (new_display first_write_fails stuck_busy) + 1\<rparr>)"
    by blast
  then have fault: "turn_on_display (new_display first_write_fails stuck_busy) =
     Raised TransportError
       ((new_display first_write_fails stuck_busy)\<lparr>dc := 0, cs := 0, spi_calls := 1\<rparr>)"
    by (simp add: new_display_def)
  from unknown new_display_healthy stuck fault show ?thesis
    unfolding t0(1) run1 run2 by (simp add: r b b0)
qed

section \<open>Sequences of calls\<close>

lemma completes_clear: "bytes_ok (Clear color) \<Longrightarrow> completes (clear color)"
  by (cases color) (simp_all add: clear_def clear_buffer_bytes)

lemma completes_exec: "bytes_ok c \<Longrightarrow> completes (exec c)"
proof (cases c)
  case (SetRamDataEntryMode mode)
  assume "bytes_ok c"
  with SetRamDataEntryMode show ?thesis by (cases mode) simp_all
next
  case (SetBorder v)
  assume "bytes_ok c"
  with SetBorder show ?thesis by (cases v) simp_all
next
  case (Clear color)
  assume "bytes_ok c"
  with Clear show ?thesis by (simp add: completes_clear)
qed simp_all

lemma list_all_completes_exec:
  "list_all bytes_ok calls \<Longrightarrow> list_all completes (map exec calls)"
  by (induction calls) (simp_all add: completes_exec)




end
